theory Spec2Isabelle
  imports Main "HOL-Library.Product_Lexorder"
begin

section \<open>Python string operations used by the crawler\<close>

text \<open>
  Strings are lists of characters. The operations below are the ones
  \<^verbatim>\<open>crawler.py\<close> applies to timestamps, contents and stored lines:
  \<^verbatim>\<open>s.split(sep)\<close> for a one-character separator, \<^verbatim>\<open>sub in s\<close>,
  \<^verbatim>\<open>s.strip()\<close> and \<^verbatim>\<open>''.join(parts)\<close> (which is \<open>concat\<close>).
\<close>

text \<open>\<^verbatim>\<open>s.split(sep)\<close>: the segments between occurrences of \<open>sep\<close>; never empty.\<close>

fun split_on :: "char \<Rightarrow> string \<Rightarrow> string list" where
  "split_on sep [] = [[]]"
| "split_on sep (c # cs) =
     (if c = sep then [] # split_on sep cs
      else (case split_on sep cs of
              [] \<Rightarrow> [[c]]
            | w # ws \<Rightarrow> (c # w) # ws))"

definition startswith :: "string \<Rightarrow> string \<Rightarrow> bool" where
  "startswith s p = (take (length p) s = p)"

text \<open>\<^verbatim>\<open>sub in s\<close>: \<open>sub\<close> occurs in \<open>s\<close> as a contiguous run.\<close>

fun contains :: "string \<Rightarrow> string \<Rightarrow> bool" where
  "contains sub [] = (sub = [])"
| "contains sub (c # cs) = (startswith (c # cs) sub \<or> contains sub cs)"

text \<open>
  The characters \<^verbatim>\<open>str.strip()\<close> removes, among the first 256 code points:
  tab, line feed, vertical tab, form feed, carriage return, the four
  separators 0x1C..0x1F, space, NEL and the no-break space.
\<close>

definition is_space :: "char \<Rightarrow> bool" where
  "is_space c = (let n = (of_char c :: nat) in
     (9 \<le> n \<and> n \<le> 13) \<or> (28 \<le> n \<and> n \<le> 32) \<or> n = 133 \<or> n = 160)"

definition strip :: "string \<Rightarrow> string" where
  "strip s = rev (dropWhile is_space (rev (dropWhile is_space s)))"

section \<open>The timestamp parser\<close>

text \<open>
  \<^verbatim>\<open>datetime.strptime(s, '%Y-%m-%dT%H:%M:%S.%f')\<close>. A naive \<^verbatim>\<open>datetime\<close> is
  the tuple (year, month, day, hour, minute, second, microsecond), and Python
  compares two of them lexicographically, which is the order of the product type.
\<close>

type_synonym datetime = "nat \<times> nat \<times> nat \<times> nat \<times> nat \<times> nat \<times> nat"

definition is_digit :: "char \<Rightarrow> bool" where
  "is_digit c = (let n = (of_char c :: nat) in 48 \<le> n \<and> n \<le> 57)"

definition digit_val :: "char \<Rightarrow> nat" where
  "digit_val c = (of_char c :: nat) - 48"

text \<open>\<^verbatim>\<open>int(s)\<close> on a string of decimal digits.\<close>

definition int_of_digits :: "string \<Rightarrow> nat" where
  "int_of_digits s = foldl (\<lambda>n c. 10 * n + digit_val c) 0 s"

text \<open>
  A directive's regular expression followed by a literal separator: the field is
  the text before the first separator and has to match the directive as a whole.
  \<open>cut P s\<close> splits \<open>s\<close> at the first character satisfying \<open>P\<close>.
\<close>

definition cut :: "(char \<Rightarrow> bool) \<Rightarrow> string \<Rightarrow> (string \<times> string) option" where
  "cut P s = (case dropWhile (\<lambda>c. \<not> P c) s of
                [] \<Rightarrow> None
              | _ # r \<Rightarrow> Some (takeWhile (\<lambda>c. \<not> P c) s, r))"

text \<open>One or two digits with a value in \<open>lo..hi\<close>.\<close>

definition digits12 :: "nat \<Rightarrow> nat \<Rightarrow> string \<Rightarrow> nat option" where
  "digits12 lo hi s =
     (if list_all is_digit s \<and> (length s = 1 \<or> length s = 2)
         \<and> lo \<le> int_of_digits s \<and> int_of_digits s \<le> hi
      then Some (int_of_digits s) else None)"

text \<open>\<^verbatim>\<open>%Y\<close> is \<^verbatim>\<open>\d\d\d\d\<close>.\<close>

definition re_Y :: "string \<Rightarrow> nat option" where
  "re_Y s = (if list_all is_digit s \<and> length s = 4 then Some (int_of_digits s) else None)"

text \<open>\<^verbatim>\<open>%m\<close> is \<^verbatim>\<open>1[0-2]|0[1-9]|[1-9]\<close>.\<close>

definition re_m :: "string \<Rightarrow> nat option" where
  "re_m s = digits12 1 12 s"

text \<open>\<^verbatim>\<open>%d\<close> is \<^verbatim>\<open>3[0-1]|[1-2]\d|0[1-9]|[1-9]| [1-9]\<close>: a space may stand for the leading zero.\<close>

definition re_d :: "string \<Rightarrow> nat option" where
  "re_d s = (case s of
               c # r \<Rightarrow> (if c = CHR '' '' then (if length r = 1 then digits12 1 9 r else None)
                         else digits12 1 31 s)
             | [] \<Rightarrow> None)"

text \<open>\<^verbatim>\<open>%H\<close> is \<^verbatim>\<open>2[0-3]|[0-1]\d|\d\<close>, \<^verbatim>\<open>%M\<close> is \<^verbatim>\<open>[0-5]\d|\d\<close>, \<^verbatim>\<open>%S\<close> is \<^verbatim>\<open>6[0-1]|[0-5]\d|\d\<close>.\<close>

definition re_H :: "string \<Rightarrow> nat option" where
  "re_H s = digits12 0 23 s"

definition re_M :: "string \<Rightarrow> nat option" where
  "re_M s = digits12 0 59 s"

definition re_S :: "string \<Rightarrow> nat option" where
  "re_S s = digits12 0 61 s"

text \<open>\<^verbatim>\<open>%f\<close> is \<^verbatim>\<open>[0-9]{1,6}\<close>, padded with zeros on the right to six digits.\<close>

definition re_f :: "string \<Rightarrow> nat option" where
  "re_f s =
     (if list_all is_digit s \<and> 1 \<le> length s \<and> length s \<le> 6
      then Some (int_of_digits (s @ replicate (6 - length s) CHR ''0'')) else None)"

definition is_leap :: "nat \<Rightarrow> bool" where
  "is_leap y = (y mod 4 = 0 \<and> (y mod 100 \<noteq> 0 \<or> y mod 400 = 0))"

definition days_in_month :: "nat \<Rightarrow> nat \<Rightarrow> nat" where
  "days_in_month y m =
     (if m = 2 then (if is_leap y then 29 else 28)
      else if m = 4 \<or> m = 6 \<or> m = 9 \<or> m = 11 then 30 else 31)"

text \<open>
  The \<^verbatim>\<open>datetime\<close> constructor: it raises ValueError (here \<open>None\<close>) for the year 0,
  a day the month does not have, and the seconds 60 and 61 the pattern lets through.
\<close>

definition datetime_new ::
  "nat \<Rightarrow> nat \<Rightarrow> nat \<Rightarrow> nat \<Rightarrow> nat \<Rightarrow> nat \<Rightarrow> nat \<Rightarrow> datetime option" where
  "datetime_new y m d H M S f =
     (if 1 \<le> y \<and> y \<le> 9999 \<and> 1 \<le> m \<and> m \<le> 12 \<and> 1 \<le> d \<and> d \<le> days_in_month y m
         \<and> H \<le> 23 \<and> M \<le> 59 \<and> S \<le> 59 \<and> f \<le> 999999
      then Some (y, m, d, H, M, S, f) else None)"

text \<open>
  The pattern is matched case-insensitively, so the literal \<^verbatim>\<open>T\<close> of the format also
  accepts \<^verbatim>\<open>t\<close>; text left over after the fraction is an error. \<open>None\<close> is ValueError.
\<close>

definition strptime :: "string \<Rightarrow> datetime option" where
  "strptime s =
     Option.bind (cut (\<lambda>c. c = CHR ''-'') s) (\<lambda>(fY, r1).
     Option.bind (cut (\<lambda>c. c = CHR ''-'') r1) (\<lambda>(fm, r2).
     Option.bind (cut (\<lambda>c. c = CHR ''T'' \<or> c = CHR ''t'') r2) (\<lambda>(fd, r3).
     Option.bind (cut (\<lambda>c. c = CHR '':'') r3) (\<lambda>(fH, r4).
     Option.bind (cut (\<lambda>c. c = CHR '':'') r4) (\<lambda>(fM, r5).
     Option.bind (cut (\<lambda>c. c = CHR ''.'') r5) (\<lambda>(fS, ff).
     Option.bind (re_Y fY) (\<lambda>y.
     Option.bind (re_m fm) (\<lambda>m.
     Option.bind (re_d fd) (\<lambda>d.
     Option.bind (re_H fH) (\<lambda>H.
     Option.bind (re_M fM) (\<lambda>M.
     Option.bind (re_S fS) (\<lambda>S.
     Option.bind (re_f ff) (\<lambda>f.
     datetime_new y m d H M S f)))))))))))))"

section \<open>The store, the log and the remote service\<close>

text \<open>
  The disk is a set of directories and a map from file paths to file contents; a
  path is the string the code computes, and a file's content is its text. A directory
  is named without trailing slashes; the root and the current directory (the empty
  path) always exist. \<^verbatim>\<open>os.makedirs\<close> creates a directory with the directories above
  it, and a file is created only in a directory that exists: otherwise \<^verbatim>\<open>open\<close> raises
  FileNotFoundError. \<^verbatim>\<open>os.path.exists\<close> of the folder is read among the directories
  and that of the log file among the files: no regular file stands where the code
  needs a directory, and no directory where it needs a file. The store path of a
  crawler is never empty (\<^verbatim>\<open>__init__\<close> replaces an empty one by \<^verbatim>\<open>STORE_PATH\<close>), so
  the folder is never the empty path. Two different path strings are two different
  files. Every \<^verbatim>\<open>logging\<close> call appends an event to the log. Exceptions are values:
  a function that can raise returns the state it reached together with the error.
\<close>

datatype error =
    ValueError
  | FileNotFoundError
  | FailedToGetLogs string
  | RemoteError string

datatype event =
    InfoRunIds "string list"
  | ErrorGetLogs string
  | InfoStored nat string string
  | InfoProcessing string
  | ErrorProcess string error
  | InfoFinished

record state =
  dirs :: "string set"
  files :: "string \<rightharpoonup> string"
  log :: "event list"

record crawler =
  entity :: string
  project :: string
  store_path :: string
  frequency :: nat

type_synonym log_line = "string \<times> string"

text \<open>A run of the remote service: its id and the \<^verbatim>\<open>hotkey\<close> entry of its config, if any.\<close>

record run =
  run_id :: string
  config_hotkey :: "string option"

text \<open>An edge of the GraphQL answer: \<^verbatim>\<open>log["node"]["timestamp"]\<close> and \<^verbatim>\<open>log["node"]["line"]\<close>.\<close>

record edge =
  node_timestamp :: string
  node_line :: string

text \<open>
  The answer to \<^verbatim>\<open>requests.post\<close>: the status code and what
  \<^verbatim>\<open>response.json()["data"]["project"]["run"]["logLines"]["edges"]\<close> evaluates to,
  an error when the payload is malformed.
\<close>

record response =
  status_code :: nat
  json_edges :: "error + edge list"

text \<open>
  The remote service is a parameter of the model: what \<^verbatim>\<open>wandb.Api().runs(...)\<close>
  yields and what the GraphQL endpoint answers for a run id; either call may raise.
\<close>

record remote =
  api_runs :: "error + run list"
  post :: "string \<Rightarrow> error + response"

definition STORE_PATH :: string where
  "STORE_PATH = ''wandb_logs''"

definition levels :: "string list" where
  "levels = [''SUCCESS'', ''TRACE'', ''ERROR'', ''WARNING'', ''INFO'', ''DEBUG'']"

definition LF :: char where
  "LF = CHR 0x0A"

definition CR :: char where
  "CR = CHR 0x0D"

text \<open>\<^verbatim>\<open>os.path.join(a, b)\<close> on POSIX: an absolute second component replaces the first.\<close>

definition path_join :: "string \<Rightarrow> string \<Rightarrow> string" where
  "path_join a b =
     (if startswith b ''/'' then b
      else if a = [] \<or> last a = CHR ''/'' then a @ b
      else a @ ''/'' @ b)"

text \<open>
  A path without its trailing slashes (a path of slashes only is the root and keeps
  them), and \<^verbatim>\<open>os.path.dirname\<close>: the part up to the last slash, without its trailing
  slashes.
\<close>

definition strip_slash :: "string \<Rightarrow> string" where
  "strip_slash p =
     (if list_all (\<lambda>c. c = CHR ''/'') p then p
      else rev (dropWhile (\<lambda>c. c = CHR ''/'') (rev p)))"

definition dirname :: "string \<Rightarrow> string" where
  "dirname p = strip_slash (rev (dropWhile (\<lambda>c. c \<noteq> CHR ''/'') (rev p)))"

text \<open>
  The directories \<^verbatim>\<open>os.makedirs(p)\<close> leaves in existence: \<open>p\<close> and every directory
  above it, from the top down; the root and the current directory are not listed.
\<close>

definition dir_chain :: "string \<Rightarrow> string list" where
  "dir_chain p =
     (let q = strip_slash p
      in filter (\<lambda>d. \<not> list_all (\<lambda>c. c = CHR ''/'') d)
           (map (\<lambda>i. strip_slash (take i q)) (filter (\<lambda>i. q ! i = CHR ''/'') [0..<length q])
            @ [q]))"

definition is_dir :: "string set \<Rightarrow> string \<Rightarrow> bool" where
  "is_dir ds p = (let q = strip_slash p in list_all (\<lambda>c. c = CHR ''/'') q \<or> q \<in> ds)"

definition makedirs :: "string \<Rightarrow> state \<Rightarrow> state" where
  "makedirs p st = st\<lparr>dirs := dirs st \<union> set (dir_chain p)\<rparr>"

text \<open>
  Iterating over a file opened in text mode: the lines of the content, each with its
  terminator; \<^verbatim>\<open>\n\<close>, \<^verbatim>\<open>\r\n\<close> and \<^verbatim>\<open>\r\<close> all end a line and are read as \<^verbatim>\<open>\n\<close>.
\<close>

fun file_lines :: "string \<Rightarrow> string list" where
  "file_lines [] = []"
| "file_lines (c # cs) =
     (if c = LF then [LF] # file_lines cs
      else if c = CR then
        (case cs of
           [] \<Rightarrow> [[LF]]
         | d # ds \<Rightarrow> if d = LF then [LF] # file_lines ds else [LF] # file_lines cs)
      else (case file_lines cs of
              [] \<Rightarrow> [[c]]
            | l # ls \<Rightarrow> (c # l) # ls))"

section \<open>DatatimeHandler\<close>

definition get_datetime_from_log :: "string \<Rightarrow> error + datetime" where
  "get_datetime_from_log log_line =
     (let ts = hd (split_on CHR ''|'' log_line);
          ts = strip ts
      in case strptime ts of None \<Rightarrow> Inl ValueError | Some ts_datetime \<Rightarrow> Inr ts_datetime)"

definition get_datetime_from_ts_str :: "string \<Rightarrow> error + datetime" where
  "get_datetime_from_ts_str timestamp =
     (case strptime timestamp of None \<Rightarrow> Inl ValueError | Some d \<Rightarrow> Inr d)"

section \<open>WandbLogCrawler\<close>

definition check_store_path :: "crawler \<Rightarrow> state \<Rightarrow> state" where
  "check_store_path self st =
     (if \<not> is_dir (dirs st) (store_path self) then makedirs (store_path self) st else st)"

text \<open>\<^verbatim>\<open>__init__\<close>: an empty (or missing) \<^verbatim>\<open>store_path\<close> argument falls back to \<^verbatim>\<open>STORE_PATH\<close>.\<close>

definition init :: "string \<Rightarrow> string \<Rightarrow> string option \<Rightarrow> nat \<Rightarrow> state \<Rightarrow> crawler \<times> state" where
  "init e p sp fr st =
     (let self = \<lparr>entity = e, project = p,
                  store_path = (case sp of None \<Rightarrow> STORE_PATH
                                | Some x \<Rightarrow> if x = [] then STORE_PATH else x),
                  frequency = fr\<rparr>
      in (self, check_store_path self st))"

definition get_runs :: "remote \<Rightarrow> state \<Rightarrow> state \<times> (error + run list)" where
  "get_runs api st =
     (case api_runs api of
        Inl e \<Rightarrow> (st, Inl e)
      | Inr runs \<Rightarrow> (st\<lparr>log := log st @ [InfoRunIds (map run_id runs)]\<rparr>, Inr runs))"

definition get_logs :: "remote \<Rightarrow> string \<Rightarrow> state \<Rightarrow> state \<times> (error + edge list)" where
  "get_logs api rid st =
     (case post api rid of
        Inl e \<Rightarrow> (st, Inl e)
      | Inr resp \<Rightarrow>
          if status_code resp \<noteq> 200
          then (st\<lparr>log := log st @ [ErrorGetLogs rid]\<rparr>, Inl (FailedToGetLogs rid))
          else (st, json_edges resp))"

text \<open>The folder and the file of an owner key and a date, as the three methods compute them.\<close>

definition folder_path :: "crawler \<Rightarrow> string \<Rightarrow> string" where
  "folder_path self hotkey = path_join (store_path self) hotkey"

definition file_path :: "crawler \<Rightarrow> string \<Rightarrow> string \<Rightarrow> string" where
  "file_path self hotkey date = path_join (folder_path self hotkey) (date @ ''.log'')"

text \<open>
  The timestamp of the last line of a file's content: no line gives no timestamp,
  a last line that does not parse raises ValueError.
\<close>

definition content_last_datetime :: "string \<Rightarrow> error + datetime option" where
  "content_last_datetime content =
     (let last_line = foldl (\<lambda>_ line. Some line) None (file_lines content)
      in case last_line of
           None \<Rightarrow> Inr None
         | Some l \<Rightarrow>
             if l = [] then Inr None
             else (case get_datetime_from_log l of
                     Inl e \<Rightarrow> Inl e
                   | Inr d \<Rightarrow> Inr (Some d)))"

definition get_last_store_line_datetime ::
  "crawler \<Rightarrow> string \<Rightarrow> string \<Rightarrow> state \<Rightarrow> error + datetime option" where
  "get_last_store_line_datetime self date hotkey st =
     (case files st (file_path self hotkey date) of
        None \<Rightarrow> Inl FileNotFoundError
      | Some content \<Rightarrow> content_last_datetime content)"

text \<open>
  Lines 100-108. The folder is made when it is not there. The empty file is written
  when the file is not there, which raises FileNotFoundError when the directory of
  \<open>file_path\<close> does not exist (a date with a slash in it names a directory below the
  folder that nothing has made); the folder made before stays.
\<close>

definition ensure_file_exist :: "crawler \<Rightarrow> string \<Rightarrow> string \<Rightarrow> state
    \<Rightarrow> state \<times> error option" where
  "ensure_file_exist self hotkey date st =
     (let folder = folder_path self hotkey;
          fp = file_path self hotkey date;
          st1 = (if \<not> is_dir (dirs st) folder then makedirs folder st else st)
      in if files st1 fp = None
         then (if is_dir (dirs st1) (dirname fp)
               then (st1\<lparr>files := (files st1)(fp \<mapsto> [])\<rparr>, None)
               else (st1, Some FileNotFoundError))
         else (st1, None))"

text \<open>Lines 116-117: the content of a line that mentions a level anywhere.\<close>

definition strip_level :: "string \<Rightarrow> string" where
  "strip_level content =
     (if list_ex (\<lambda>level. contains level content) levels
      then concat (drop 1 (split_on CHR ''|'' content))
      else content)"

definition date_of :: "string \<Rightarrow> string" where
  "date_of timestamp = hd (split_on CHR ''T'' timestamp)"

text \<open>
  \<^verbatim>\<open>file_lines_map\<close> is a dict, which keeps its keys in the order of their first
  insertion: an association list, a new key going to the end.
\<close>

fun map_append :: "string \<Rightarrow> log_line \<Rightarrow> (string \<times> log_line list) list
    \<Rightarrow> (string \<times> log_line list) list" where
  "map_append k v [] = [(k, [v])]"
| "map_append k v ((k', vs) # m) =
     (if k = k' then (k', vs @ [v]) # m else (k', vs) # map_append k v m)"

definition add_line :: "(string \<times> log_line list) list \<Rightarrow> log_line
    \<Rightarrow> (string \<times> log_line list) list" where
  "add_line file_lines_map line =
     (let timestamp = fst line;
          content = strip_level (snd line);
          date_string = date_of timestamp
      in map_append date_string (timestamp, content) file_lines_map)"

definition build_file_lines_map :: "log_line list \<Rightarrow> (string \<times> log_line list) list" where
  "build_file_lines_map lines = foldl add_line [] lines"

definition format_line :: "string \<Rightarrow> string \<Rightarrow> string" where
  "format_line ts content = ts @ '' | '' @ content @ [LF]"

text \<open>
  Lines 134-139: the text written and the number of lines written, and the error when
  a timestamp does not parse. What was written before the error reaches the file,
  which the \<^verbatim>\<open>with\<close> block closes.
\<close>

fun write_lines :: "datetime option \<Rightarrow> log_line list \<Rightarrow> string \<Rightarrow> nat
    \<Rightarrow> string \<times> nat \<times> error option" where
  "write_lines last_line_datetime [] out new_line_count = (out, new_line_count, None)"
| "write_lines last_line_datetime ((ts, content) # rest) out new_line_count =
     (case get_datetime_from_ts_str ts of
        Inl e \<Rightarrow> (out, new_line_count, Some e)
      | Inr ts_datetime \<Rightarrow>
          if (case last_line_datetime of None \<Rightarrow> False | Some l \<Rightarrow> ts_datetime \<le> l)
          then write_lines last_line_datetime rest out new_line_count
          else write_lines last_line_datetime rest (out @ format_line ts content)
                 (new_line_count + 1))"

definition append_file :: "string \<Rightarrow> string \<Rightarrow> state \<Rightarrow> state" where
  "append_file fp out st =
     st\<lparr>files := (files st)(fp \<mapsto> (case files st fp of None \<Rightarrow> [] | Some c \<Rightarrow> c) @ out)\<rparr>"

text \<open>Lines 125-140: one date of the batch.\<close>

definition store_date :: "crawler \<Rightarrow> string \<Rightarrow> state \<Rightarrow> string \<times> log_line list
    \<Rightarrow> state \<times> error option" where
  "store_date self hotkey st item =
     (let date_string = fst item;
          content_lines = snd item;
          fp = file_path self hotkey date_string
      in case ensure_file_exist self hotkey date_string st of
           (st1, Some e) \<Rightarrow> (st1, Some e)
         | (st1, None) \<Rightarrow>
             (case get_last_store_line_datetime self date_string hotkey st1 of
                Inl e \<Rightarrow> (st1, Some e)
              | Inr last_line_datetime \<Rightarrow>
                  (let r = write_lines last_line_datetime content_lines [] 0;
                       st2 = append_file fp (fst r) st1
                   in case snd (snd r) of
                        Some e \<Rightarrow> (st2, Some e)
                      | None \<Rightarrow>
                          (st2\<lparr>log := log st2 @ [InfoStored (fst (snd r)) hotkey date_string]\<rparr>,
                           None))))"

fun store_dates :: "crawler \<Rightarrow> string \<Rightarrow> (string \<times> log_line list) list \<Rightarrow> state
    \<Rightarrow> state \<times> error option" where
  "store_dates self hotkey [] st = (st, None)"
| "store_dates self hotkey (item # items) st =
     (case store_date self hotkey st item of
        (st', Some e) \<Rightarrow> (st', Some e)
      | (st', None) \<Rightarrow> store_dates self hotkey items st')"

definition store_lines :: "crawler \<Rightarrow> string \<Rightarrow> log_line list \<Rightarrow> state
    \<Rightarrow> state \<times> error option" where
  "store_lines self hotkey lines st =
     store_dates self hotkey (build_file_lines_map lines) st"

definition store_logs :: "crawler \<Rightarrow> string \<Rightarrow> edge list \<Rightarrow> state \<Rightarrow> state \<times> error option" where
  "store_logs self hotkey logs st =
     (let lines = map (\<lambda>l. (node_timestamp l, node_line l)) logs
      in store_lines self hotkey lines st)"

text \<open>Lines 151-158: one run of the cycle; the \<^verbatim>\<open>except\<close> clause turns any error into a log entry.\<close>

definition process_run :: "crawler \<Rightarrow> remote \<Rightarrow> state \<Rightarrow> run \<Rightarrow> state" where
  "process_run self api st r =
     (let st1 = st\<lparr>log := log st @ [InfoProcessing (run_id r)]\<rparr>;
          hotkey = (case config_hotkey r of None \<Rightarrow> run_id r | Some h \<Rightarrow> h)
      in case get_logs api (run_id r) st1 of
           (st2, Inl e) \<Rightarrow> st2\<lparr>log := log st2 @ [ErrorProcess (run_id r) e]\<rparr>
         | (st2, Inr logs) \<Rightarrow>
             (case store_logs self hotkey logs st2 of
                (st3, Some e) \<Rightarrow> st3\<lparr>log := log st3 @ [ErrorProcess (run_id r) e]\<rparr>
              | (st3, None) \<Rightarrow> st3))"

definition execute :: "crawler \<Rightarrow> remote \<Rightarrow> state \<Rightarrow> state \<times> error option" where
  "execute self api st =
     (case get_runs api st of
        (st1, Inl e) \<Rightarrow> (st1, Some e)
      | (st1, Inr runs) \<Rightarrow>
          (let st2 = foldl (process_run self api) st1 runs
           in (st2\<lparr>log := log st2 @ [InfoFinished]\<rparr>, None)))"

section \<open>Vocabulary of the statements\<close>

text \<open>
  The content of a file, read as empty when the file is absent; whether its last line
  parses, and the high-water mark it gives; the lines of a date that pass the mark and
  the text written for them; the directories once the folder is there, and the state
  after one date is stored without error; the
  lines of a batch that carry a date, with their contents as stored.
\<close>

definition ts_char :: "char \<Rightarrow> bool" where
  "ts_char c = (is_digit c \<or> c \<in> set ''-Tt:. '')"

definition old_content :: "state \<Rightarrow> string \<Rightarrow> string" where
  "old_content st p = (case files st p of None \<Rightarrow> [] | Some c \<Rightarrow> c)"

definition readable :: "string \<Rightarrow> bool" where
  "readable content = (\<not> isl (content_last_datetime content))"

definition mark_of :: "string \<Rightarrow> datetime option" where
  "mark_of content = (case content_last_datetime content of Inl e \<Rightarrow> None | Inr m \<Rightarrow> m)"

definition newer :: "datetime option \<Rightarrow> log_line \<Rightarrow> bool" where
  "newer mark line =
     (case mark of
        None \<Rightarrow> True
      | Some T \<Rightarrow> (case strptime (fst line) of None \<Rightarrow> False | Some t \<Rightarrow> T < t))"

definition kept_text :: "datetime option \<Rightarrow> log_line list \<Rightarrow> string" where
  "kept_text mark ls = concat (map (\<lambda>l. format_line (fst l) (snd l)) (filter (newer mark) ls))"

definition folder_dirs :: "crawler \<Rightarrow> string \<Rightarrow> string set \<Rightarrow> string set" where
  "folder_dirs self hotkey ds =
     (if is_dir ds (folder_path self hotkey) then ds
      else ds \<union> set (dir_chain (folder_path self hotkey)))"

definition after_date :: "crawler \<Rightarrow> string \<Rightarrow> state \<Rightarrow> string \<times> log_line list \<Rightarrow> state" where
  "after_date self hotkey st item =
     (let fp = file_path self hotkey (fst item);
          mark = mark_of (old_content st fp)
      in st\<lparr>dirs := folder_dirs self hotkey (dirs st),
            files := (files st)(fp \<mapsto> old_content st fp @ kept_text mark (snd item)),
            log := log st @ [InfoStored (length (filter (newer mark) (snd item))) hotkey (fst item)]\<rparr>)"

definition partition_of :: "string \<Rightarrow> log_line list \<Rightarrow> log_line list" where
  "partition_of d lines =
     filter (\<lambda>l. date_of (fst l) = d) (map (\<lambda>l. (fst l, strip_level (snd l))) lines)"

definition no_line_break :: "string \<Rightarrow> bool" where
  "no_line_break s = (LF \<notin> set s \<and> CR \<notin> set s)"

definition ends_with_newline :: "string \<Rightarrow> bool" where
  "ends_with_newline content = (content = [] \<or> last content = LF)"

definition time_of :: "string \<Rightarrow> datetime" where
  "time_of ts = (case strptime ts of None \<Rightarrow> (0, 0, 0, 0, 0, 0, 0) | Some t \<Rightarrow> t)"

definition line_times :: "string \<Rightarrow> (error + datetime) list" where
  "line_times content = map get_datetime_from_log (file_lines content)"

definition file_sorted :: "string \<Rightarrow> bool" where
  "file_sorted content =
     (list_all (\<lambda>r. \<not> isl r) (line_times content) \<and> sorted (map projr (line_times content)))"

definition date_sorted :: "log_line list \<Rightarrow> bool" where
  "date_sorted lines =
     list_all (\<lambda>l. sorted (map (\<lambda>k. time_of (fst k))
                              (filter (\<lambda>k. date_of (fst k) = date_of (fst l)) lines))) lines"

text \<open>Example data: a crawler on the default store root, and three states of the disk.\<close>

definition example_crawler :: crawler where
  "example_crawler =
     \<lparr>entity = ''macrocosmos'', project = ''data-universe-validators'',
      store_path = ''wandb_logs'', frequency = 60\<rparr>"

definition empty_state :: state where
  "empty_state = \<lparr>dirs = {''wandb_logs''}, files = Map.empty, log = []\<rparr>"

definition one_line_state :: state where
  "one_line_state =
     \<lparr>dirs = {''wandb_logs'', ''wandb_logs/hk''},
      files = [''wandb_logs/hk/2024-01-01.log'' \<mapsto> format_line ''2024-01-01T10:00:00.000000'' ''first''],
      log = []\<rparr>"

definition empty_file_state :: state where
  "empty_file_state =
     \<lparr>dirs = {''wandb_logs'', ''wandb_logs/hk''},
      files = [''wandb_logs/hk/2024-01-01.log'' \<mapsto> []],
      log = []\<rparr>"

definition dedup_batch :: "log_line list" where
  "dedup_batch =
     [(''2024-01-01T09:59:59.000000'', ''early''),
      (''2024-01-01T10:00:01.000000'', ''DEBUG | late''),
      (''2024-01-01T10:00:00.000000'', ''same'')]"

definition two_day_batch :: "log_line list" where
  "two_day_batch =
     [(''2024-01-01T10:00:00.000000'', ''INFO | hello''),
      (''2024-01-02T08:00:00.000000'', ''next day''),
      (''2024-01-01T10:00:01.000000'', ''world'')]"

definition one_line_batch :: "log_line list" where
  "one_line_batch = [(''2024-01-01T10:00:00.000000'', ''x'')]"

definition level_batch :: "log_line list" where
  "level_batch =
     [(''2024-01-01T10:00:00.000000'', ''a|b|c INFO''),
      (''2024-01-01T10:00:01.000000'', ''an ERROR without pipe'')]"

definition pipe_batch :: "log_line list" where
  "pipe_batch = [(''2024-01-01T10:00:00.000000'', ''INFO | a | b'')]"

definition run_error :: "crawler \<Rightarrow> remote \<Rightarrow> state \<Rightarrow> run \<Rightarrow> error option" where
  "run_error self api st r =
     (let st1 = st\<lparr>log := log st @ [InfoProcessing (run_id r)]\<rparr>;
          hotkey = (case config_hotkey r of None \<Rightarrow> run_id r | Some h \<Rightarrow> h)
      in case get_logs api (run_id r) st1 of
           (st2, Inl e) \<Rightarrow> Some e
         | (st2, Inr logs) \<Rightarrow> snd (store_logs self hotkey logs st2))"

definition fetch_error :: "remote \<Rightarrow> string \<Rightarrow> error option" where
  "fetch_error api rid =
     (case post api rid of
        Inl e \<Rightarrow> Some e
      | Inr resp \<Rightarrow>
          if status_code resp \<noteq> 200 then Some (FailedToGetLogs rid)
          else (case json_edges resp of Inl e \<Rightarrow> Some e | Inr logs \<Rightarrow> None))"

definition example_remote :: remote where
  "example_remote =
     \<lparr>api_runs = Inr [\<lparr>run_id = ''r1'', config_hotkey = Some ''hk''\<rparr>,
                      \<lparr>run_id = ''r2'', config_hotkey = None\<rparr>],
      post = (\<lambda>rid. if rid = ''r1''
                then Inr \<lparr>status_code = 500, json_edges = Inr []\<rparr>
                else Inr \<lparr>status_code = 200,
                          json_edges = Inr [\<lparr>node_timestamp = ''2024-01-01T10:00:00.000000'',
                                             node_line = ''INFO | hello''\<rparr>]\<rparr>)\<rparr>"

definition unsorted_batch :: "log_line list" where
  "unsorted_batch =
     [(''2024-01-01T10:00:01.000000'', ''a''),
      (''2024-01-01T10:00:00.000000'', ''b'')]"

definition sorted_batch :: "log_line list" where
  "sorted_batch =
     [(''2024-01-01T10:00:00.000000'', ''INFO | hello''),
      (''2024-01-01T10:00:01.000000'', ''world'')]"

definition two_line_state :: state where
  "two_line_state =
     \<lparr>dirs = {''wandb_logs'', ''wandb_logs/hk''},
      files = [''wandb_logs/hk/2024-01-01.log'' \<mapsto>
                 format_line ''2024-01-01T09:00:00.000000'' ''zero'' @
                 format_line ''2024-01-01T10:00:00.000000'' ''first''],
      log = []\<rparr>"

definition bad_batch :: "log_line list" where
  "bad_batch =
     [(''2024-01-01Tbad'', ''x''),
      (''2024-01-01T10:00:02.000000'', ''y'')]"

section \<open>Strings, timestamps and paths\<close>

lemma split_on_nonempty: "split_on sep s \<noteq> []"
  by (induction s) (auto split: list.splits)

lemma hd_split_on: "hd (split_on sep s) = takeWhile (\<lambda>c. c \<noteq> sep) s"
  by (induction s) (auto simp: split_on_nonempty split: list.splits)

lemma concat_split_on: "concat (split_on sep s) = filter (\<lambda>c. c \<noteq> sep) s"
  by (induction s) (auto split: list.splits)

lemma concat_tl_split_on:
  "concat (tl (split_on sep s)) =
     filter (\<lambda>c. c \<noteq> sep) (tl (dropWhile (\<lambda>c. c \<noteq> sep) s))"
proof (induction s)
  case Nil
  show ?case by simp
next
  case (Cons c cs)
  show ?case
  proof (cases "c = sep")
    case True
    then show ?thesis by (simp add: concat_split_on)
  next
    case False
    obtain w ws where w: "split_on sep cs = w # ws"
      using split_on_nonempty [of sep cs] by (cases "split_on sep cs") auto
    with False Cons show ?thesis by simp
  qed
qed

lemma concat_drop1_split_on:
  "concat (drop 1 (split_on sep s)) =
     filter (\<lambda>c. c \<noteq> sep) (drop 1 (dropWhile (\<lambda>c. c \<noteq> sep) s))"
  using concat_tl_split_on [of sep s] by (simp add: drop_Suc)

lemma split_on_no_sep: "sep \<notin> set s \<Longrightarrow> split_on sep s = [s]"
  by (induction s) auto

lemma cut_SomeD:
  "cut P s = Some (a, r) \<Longrightarrow> \<exists>x. s = a @ x # r \<and> P x \<and> (\<forall>c\<in>set a. \<not> P c)"
proof -
  assume h: "cut P s = Some (a, r)"
  then obtain x where d: "dropWhile (\<lambda>c. \<not> P c) s = x # r" and a: "a = takeWhile (\<lambda>c. \<not> P c) s"
    by (auto simp: cut_def split: list.splits)
  have "s = a @ x # r" using takeWhile_dropWhile_id [of "\<lambda>c. \<not> P c" s] d a by simp
  moreover have "P x" using hd_dropWhile [of "\<lambda>c. \<not> P c" s] d by auto
  moreover have "\<forall>c\<in>set a. \<not> P c" using a by (auto dest: set_takeWhileD)
  ultimately show ?thesis by blast
qed

lemma digits12_chars: "digits12 lo hi s = Some v \<Longrightarrow> list_all is_digit s \<and> s \<noteq> []"
  by (auto simp: digits12_def split: if_splits)

lemma re_d_chars: "re_d s = Some v \<Longrightarrow> list_all ts_char s"
  by (cases s) (auto simp: re_d_def ts_char_def list_all_iff split: if_splits dest!: digits12_chars)

lemma strptime_shape:
  assumes "strptime s = Some t"
  shows "\<exists>fY rest. s = fY @ rest \<and> list_all is_digit fY \<and> length fY = 4 \<and> list_all ts_char rest
           \<and> rest \<noteq> [] \<and> is_digit (last rest)"
proof -
  from assms obtain fY r1 fm r2 fd r3 fH r4 fM r5 fS ff y m d H M S f where
    c1: "cut (\<lambda>c. c = CHR ''-'') s = Some (fY, r1)" and
    c2: "cut (\<lambda>c. c = CHR ''-'') r1 = Some (fm, r2)" and
    c3: "cut (\<lambda>c. c = CHR ''T'' \<or> c = CHR ''t'') r2 = Some (fd, r3)" and
    c4: "cut (\<lambda>c. c = CHR '':'') r3 = Some (fH, r4)" and
    c5: "cut (\<lambda>c. c = CHR '':'') r4 = Some (fM, r5)" and
    c6: "cut (\<lambda>c. c = CHR ''.'') r5 = Some (fS, ff)" and
    v: "re_Y fY = Some y" "re_m fm = Some m" "re_d fd = Some d" "re_H fH = Some H"
       "re_M fM = Some M" "re_S fS = Some S" "re_f ff = Some f"
    unfolding strptime_def by (auto simp: Option.bind_eq_Some_conv)
  have dY: "list_all is_digit fY" "length fY = 4" using v(1) by (auto simp: re_Y_def split: if_splits)
  have dm: "list_all is_digit fm" using v(2) by (auto simp: re_m_def dest: digits12_chars)
  have dd: "list_all ts_char fd" using v(3) by (rule re_d_chars)
  have dH: "list_all is_digit fH" using v(4) by (auto simp: re_H_def dest: digits12_chars)
  have dM: "list_all is_digit fM" using v(5) by (auto simp: re_M_def dest: digits12_chars)
  have dS: "list_all is_digit fS" using v(6) by (auto simp: re_S_def dest: digits12_chars)
  have df: "list_all is_digit ff" "ff \<noteq> []" using v(7) by (auto simp: re_f_def split: if_splits)
  have dig: "\<And>xs. list_all is_digit xs \<Longrightarrow> list_all ts_char xs"
    by (auto simp: list_all_iff ts_char_def)
  from cut_SomeD [OF c1] have s1: "s = fY @ CHR ''-'' # r1" by auto
  from cut_SomeD [OF c2] have s2: "r1 = fm @ CHR ''-'' # r2" by auto
  from cut_SomeD [OF c3] obtain x where s3: "r2 = fd @ x # r3" and x: "x = CHR ''T'' \<or> x = CHR ''t''" by auto
  from cut_SomeD [OF c4] have s4: "r3 = fH @ CHR '':'' # r4" by auto
  from cut_SomeD [OF c5] have s5: "r4 = fM @ CHR '':'' # r5" by auto
  from cut_SomeD [OF c6] have s6: "r5 = fS @ CHR ''.'' # ff" by auto
  have tx: "ts_char x" using x by (auto simp: ts_char_def)
  have rest: "list_all ts_char (CHR ''-'' # r1)"
    unfolding s2 s3 s4 s5 s6 using dig [OF dm] dd dig [OF dH] dig [OF dM] dig [OF dS] dig [OF df(1)] tx
    by (simp add: ts_char_def)
  have l: "last (CHR ''-'' # r1) = last ff"
    unfolding s2 s3 s4 s5 s6 using df(2) by simp
  have "is_digit (last ff)" using df by (auto simp: list_all_iff)
  with s1 dY rest l show ?thesis by (intro exI [of _ fY] exI [of _ "CHR ''-'' # r1"]) simp
qed

lemma write_lines_parsed:
  "\<forall>l\<in>set ls. strptime (fst l) \<noteq> None \<Longrightarrow>
   write_lines mark ls out n =
     (out @ kept_text mark ls, n + length (filter (newer mark) ls), None)"
proof (induction ls arbitrary: out n)
  case Nil
  show ?case by (simp add: kept_text_def)
next
  case (Cons l ls)
  obtain ts c where l: "l = (ts, c)" by (cases l)
  from Cons.prems l obtain t where t: "strptime ts = Some t" by auto
  have rest: "\<forall>l\<in>set ls. strptime (fst l) \<noteq> None" using Cons.prems by simp
  show ?case
    using Cons.IH [OF rest] l t
    by (cases mark) (auto simp: get_datetime_from_ts_str_def kept_text_def newer_def not_le)
qed

lemma write_lines_extends:
  "\<exists>suffix. fst (write_lines mark ls out n) = out @ suffix"
proof (induction ls arbitrary: out n)
  case Nil
  show ?case by simp
next
  case (Cons l ls)
  obtain ts c where l: "l = (ts, c)" by (cases l)
  show ?case
  proof (cases "get_datetime_from_ts_str ts")
    case (Inl e)
    then show ?thesis using l by simp
  next
    case (Inr d)
    from Cons.IH [of out n] obtain s1 where s1: "fst (write_lines mark ls out n) = out @ s1" by blast
    from Cons.IH [of "out @ format_line ts c" "n + 1"] obtain s2
      where s2: "fst (write_lines mark ls (out @ format_line ts c) (n + 1)) = out @ format_line ts c @ s2"
      by auto
    show ?thesis using l Inr s1 s2 by auto
  qed
qed

lemma not_all_slash_dropWhile:
  "\<not> list_all (\<lambda>c. c = CHR ''/'') xs \<Longrightarrow>
   \<not> list_all (\<lambda>c. c = CHR ''/'') (dropWhile (\<lambda>c. c = CHR ''/'') xs)"
proof -
  assume a: "\<not> list_all (\<lambda>c. c = CHR ''/'') xs"
  then have ne: "dropWhile (\<lambda>c. c = CHR ''/'') xs \<noteq> []" by (auto simp: list_all_iff)
  then have "hd (dropWhile (\<lambda>c. c = CHR ''/'') xs) \<noteq> CHR ''/''"
    using hd_dropWhile [of "\<lambda>c. c = CHR ''/''" xs] by simp
  with ne show ?thesis by (cases "dropWhile (\<lambda>c. c = CHR ''/'') xs") auto
qed

lemma strip_slash_idem: "strip_slash (strip_slash p) = strip_slash p"
proof (cases "list_all (\<lambda>c. c = CHR ''/'') p")
  case True
  then show ?thesis by (simp add: strip_slash_def)
next
  case False
  then have "\<not> list_all (\<lambda>c. c = CHR ''/'') (rev p)" by (simp add: list_all_iff)
  then have "\<not> list_all (\<lambda>c. c = CHR ''/'') (dropWhile (\<lambda>c. c = CHR ''/'') (rev p))"
    by (rule not_all_slash_dropWhile)
  then have "\<not> list_all (\<lambda>c. c = CHR ''/'') (rev (dropWhile (\<lambda>c. c = CHR ''/'') (rev p)))"
    by (simp add: list_all_iff)
  with False show ?thesis by (simp add: strip_slash_def)
qed

lemma is_dir_strip_slash: "is_dir ds (strip_slash p) = is_dir ds p"
  by (simp add: is_dir_def strip_slash_idem)

lemma strip_slash_in_chain:
  "\<not> list_all (\<lambda>c. c = CHR ''/'') (strip_slash p) \<Longrightarrow> strip_slash p \<in> set (dir_chain p)"
  by (simp add: dir_chain_def Let_def)

lemma is_dir_folder_dirs: "is_dir (folder_dirs self hotkey ds) (folder_path self hotkey)"
proof (cases "is_dir ds (folder_path self hotkey)")
  case True
  then show ?thesis by (simp add: folder_dirs_def)
next
  case False
  then have "\<not> list_all (\<lambda>c. c = CHR ''/'') (strip_slash (folder_path self hotkey))"
    by (simp add: is_dir_def Let_def)
  from strip_slash_in_chain [OF this] False show ?thesis
    by (simp add: folder_dirs_def is_dir_def Let_def)
qed

lemma folder_dirs_idem:
  "folder_dirs self hotkey (folder_dirs self hotkey ds) = folder_dirs self hotkey ds"
  using is_dir_folder_dirs [of self hotkey ds] by (simp add: folder_dirs_def [of self hotkey "folder_dirs self hotkey ds"])

lemma folder_dirs_mono: "ds \<subseteq> folder_dirs self hotkey ds"
  by (auto simp: folder_dirs_def)

lemma dirname_file_path:
  assumes "CHR ''/'' \<notin> set date"
  shows "dirname (file_path self hotkey date) = strip_slash (folder_path self hotkey)"
proof -
  let ?f = "folder_path self hotkey"
  let ?n = "date @ ''.log''"
  have n: "\<forall>x\<in>set (rev ?n). x \<noteq> CHR ''/''" using assms by auto
  have ns: "\<not> startswith ?n ''/''"
    using assms by (cases date) (auto simp: startswith_def)
  show ?thesis
  proof (cases "?f = [] \<or> last ?f = CHR ''/''")
    case True
    then have fp: "file_path self hotkey date = ?f @ ?n"
      using ns by (simp add: file_path_def path_join_def)
    have "dropWhile (\<lambda>c. c \<noteq> CHR ''/'') (rev ?n @ rev ?f) = dropWhile (\<lambda>c. c \<noteq> CHR ''/'') (rev ?f)"
      using n by (intro dropWhile_append2) auto
    moreover have "dropWhile (\<lambda>c. c \<noteq> CHR ''/'') (rev ?f) = rev ?f"
    proof (cases "?f = []")
      case True
      then show ?thesis by simp
    next
      case False
      with True have "last ?f = CHR ''/''" by simp
      then have "hd (rev ?f) = CHR ''/''" using False by (simp add: hd_rev)
      then show ?thesis using False by (cases "rev ?f") auto
    qed
    ultimately show ?thesis unfolding dirname_def fp by simp
  next
    case False
    then have fp: "file_path self hotkey date = ?f @ ''/'' @ ?n"
      using ns by (simp add: file_path_def path_join_def)
    have d: "dropWhile (\<lambda>c. c \<noteq> CHR ''/'') (rev ?n @ rev (?f @ ''/'')) =
        dropWhile (\<lambda>c. c \<noteq> CHR ''/'') (rev (?f @ ''/''))"
      using n by (intro dropWhile_append2) auto
    have na: "\<not> list_all (\<lambda>c. c = CHR ''/'') ?f"
    proof
      assume "list_all (\<lambda>c. c = CHR ''/'') ?f"
      moreover have "last ?f \<in> set ?f" using False by simp
      ultimately have "last ?f = CHR ''/''" by (simp add: list_all_iff)
      with False show False by simp
    qed
    have "dirname (file_path self hotkey date) = strip_slash (?f @ ''/'')"
      unfolding dirname_def fp using d by simp
    also have "\<dots> = strip_slash ?f"
      using na by (simp add: strip_slash_def)
    finally show ?thesis .
  qed
qed

lemma ensure_file_exist_eq:
  "ensure_file_exist self hotkey date st =
     (if files st (file_path self hotkey date) = None
      then (if is_dir (folder_dirs self hotkey (dirs st)) (dirname (file_path self hotkey date))
            then (st\<lparr>dirs := folder_dirs self hotkey (dirs st),
                     files := (files st)(file_path self hotkey date \<mapsto> [])\<rparr>, None)
            else (st\<lparr>dirs := folder_dirs self hotkey (dirs st)\<rparr>, Some FileNotFoundError))
      else (st\<lparr>dirs := folder_dirs self hotkey (dirs st)\<rparr>, None))"
  by (auto simp: ensure_file_exist_def Let_def makedirs_def folder_dirs_def)

lemma dirs_ensure_file_exist:
  "dirs (fst (ensure_file_exist self hotkey date st)) = folder_dirs self hotkey (dirs st)"
  by (simp add: ensure_file_exist_eq)

lemma log_ensure_file_exist:
  "log (fst (ensure_file_exist self hotkey date st)) = log st"
  by (simp add: ensure_file_exist_eq)

lemma files_ensure_general:
  "files (fst (ensure_file_exist self hotkey date st)) =
     (if files st (file_path self hotkey date) = None \<and>
         snd (ensure_file_exist self hotkey date st) = None
      then (files st)(file_path self hotkey date \<mapsto> []) else files st)"
  by (auto simp: ensure_file_exist_eq)

lemma ensure_no_slash:
  "CHR ''/'' \<notin> set date \<Longrightarrow> snd (ensure_file_exist self hotkey date st) = None"
  by (simp add: ensure_file_exist_eq dirname_file_path is_dir_strip_slash is_dir_folder_dirs)

lemma files_ensure_file_exist:
  "CHR ''/'' \<notin> set date \<Longrightarrow>
   files (fst (ensure_file_exist self hotkey date st)) =
     (if files st (file_path self hotkey date) = None
      then (files st)(file_path self hotkey date \<mapsto> []) else files st)"
  by (simp add: files_ensure_general ensure_no_slash)

lemma old_content_ensure:
  "old_content (fst (ensure_file_exist self hotkey date st)) p = old_content st p"
  by (simp add: old_content_def files_ensure_general)

lemma get_last_ensure:
  "CHR ''/'' \<notin> set date \<Longrightarrow>
   get_last_store_line_datetime self date hotkey (fst (ensure_file_exist self hotkey date st)) =
     content_last_datetime (old_content st (file_path self hotkey date))"
  by (simp add: get_last_store_line_datetime_def files_ensure_file_exist old_content_def
      split: option.splits)

lemma store_date_ok:
  assumes p: "\<forall>l\<in>set (snd item). strptime (fst l) \<noteq> None"
    and r: "readable (old_content st (file_path self hotkey (fst item)))"
    and ns: "CHR ''/'' \<notin> set (fst item)"
  shows "store_date self hotkey st item = (after_date self hotkey st item, None)"
proof -
  let ?fp = "file_path self hotkey (fst item)"
  obtain st1 x where en: "ensure_file_exist self hotkey (fst item) st = (st1, x)"
    by (cases "ensure_file_exist self hotkey (fst item) st")
  have x: "x = None" using ensure_no_slash [OF ns, of self hotkey st] en by simp
  have fs: "files st1 = (if files st ?fp = None then (files st)(?fp \<mapsto> []) else files st)"
    using files_ensure_file_exist [OF ns, of self hotkey st] en by simp
  have ds: "dirs st1 = folder_dirs self hotkey (dirs st)"
    using dirs_ensure_file_exist [of self hotkey "fst item" st] en by simp
  have ls: "log st1 = log st"
    using log_ensure_file_exist [of self hotkey "fst item" st] en by simp
  from r obtain m where m: "content_last_datetime (old_content st ?fp) = Inr m"
    by (cases "content_last_datetime (old_content st ?fp)") (auto simp: readable_def)
  then have mk: "mark_of (old_content st ?fp) = m" by (simp add: mark_of_def)
  have g: "get_last_store_line_datetime self (fst item) hotkey st1 = Inr m"
    using m get_last_ensure [OF ns, of self hotkey st] en by simp
  have w: "write_lines m (snd item) [] 0 =
      (kept_text m (snd item), length (filter (newer m) (snd item)), None)"
    using write_lines_parsed [OF p, of m "[]" 0] by simp
  have f: "(files st1)(?fp \<mapsto> (case files st1 ?fp of None \<Rightarrow> [] | Some c \<Rightarrow> c) @ kept_text m (snd item))
      = (files st)(?fp \<mapsto> old_content st ?fp @ kept_text m (snd item))"
    by (auto simp: fs old_content_def split: option.splits)
  have e: "append_file ?fp (kept_text m (snd item)) st1\<lparr>log := log st @ [InfoStored (length (filter (newer m) (snd item))) hotkey (fst item)]\<rparr> =
      after_date self hotkey st item"
    unfolding append_file_def f after_date_def Let_def mk
    by (rule state.equality) (simp_all add: ds ls)
  show ?thesis
    by (simp add: store_date_def Let_def en x g w append_file_def f ls)
      (simp add: e [unfolded append_file_def f])
qed

lemma old_content_after_date_other:
  "p \<noteq> file_path self hotkey (fst item) \<Longrightarrow> old_content (after_date self hotkey st item) p = old_content st p"
  by (simp add: after_date_def Let_def old_content_def)

lemma files_after_date_other:
  "p \<noteq> file_path self hotkey (fst item) \<Longrightarrow> files (after_date self hotkey st item) p = files st p"
  by (simp add: after_date_def Let_def)

lemma files_after_date_same:
  "files (after_date self hotkey st item) (file_path self hotkey (fst item)) =
     Some (old_content st (file_path self hotkey (fst item)) @
           kept_text (mark_of (old_content st (file_path self hotkey (fst item)))) (snd item))"
  by (simp add: after_date_def Let_def)

lemma store_dates_ok:
  assumes "distinct (map (\<lambda>it. file_path self hotkey (fst it)) items)"
    and "\<forall>it\<in>set items. \<forall>l\<in>set (snd it). strptime (fst l) \<noteq> None"
    and "\<forall>it\<in>set items. readable (old_content st (file_path self hotkey (fst it)))"
    and "\<forall>it\<in>set items. CHR ''/'' \<notin> set (fst it)"
  shows "store_dates self hotkey items st = (foldl (after_date self hotkey) st items, None)"
  using assms
proof (induction items arbitrary: st)
  case Nil
  show ?case by simp
next
  case (Cons it items)
  have s: "store_date self hotkey st it = (after_date self hotkey st it, None)"
    using Cons.prems by (intro store_date_ok) auto
  have r: "\<forall>i\<in>set items. readable (old_content (after_date self hotkey st it) (file_path self hotkey (fst i)))"
  proof
    fix i assume i: "i \<in> set items"
    then have "file_path self hotkey (fst i) \<noteq> file_path self hotkey (fst it)"
      using Cons.prems(1) by (force simp: image_iff)
    then show "readable (old_content (after_date self hotkey st it) (file_path self hotkey (fst i)))"
      using Cons.prems(3) i by (simp add: old_content_after_date_other)
  qed
  have "store_dates self hotkey items (after_date self hotkey st it) =
      (foldl (after_date self hotkey) (after_date self hotkey st it) items, None)"
    using Cons.prems r by (intro Cons.IH) auto
  with s show ?case by simp
qed

lemma files_foldl_after_date_other:
  "p \<notin> (\<lambda>it. file_path self hotkey (fst it)) ` set items \<Longrightarrow>
   files (foldl (after_date self hotkey) st items) p = files st p"
  by (induction items arbitrary: st) (auto simp: files_after_date_other)

lemma files_foldl_after_date_same:
  assumes "distinct (map (\<lambda>it. file_path self hotkey (fst it)) items)" and "it \<in> set items"
  shows "files (foldl (after_date self hotkey) st items) (file_path self hotkey (fst it)) =
     Some (old_content st (file_path self hotkey (fst it)) @
           kept_text (mark_of (old_content st (file_path self hotkey (fst it)))) (snd it))"
  using assms
proof (induction items arbitrary: st)
  case Nil
  then show ?case by simp
next
  case (Cons a items)
  show ?case
  proof (cases "it = a")
    case True
    have "file_path self hotkey (fst a) \<notin> (\<lambda>it. file_path self hotkey (fst it)) ` set items"
      using Cons.prems(1) by auto
    then show ?thesis
      using True by (simp add: files_foldl_after_date_other files_after_date_same)
  next
    case False
    then have i: "it \<in> set items" using Cons.prems(2) by simp
    then have ne: "file_path self hotkey (fst it) \<noteq> file_path self hotkey (fst a)"
      using Cons.prems(1) by (force simp: image_iff)
    have "files (foldl (after_date self hotkey) (after_date self hotkey st a) items) (file_path self hotkey (fst it)) =
       Some (old_content (after_date self hotkey st a) (file_path self hotkey (fst it)) @
           kept_text (mark_of (old_content (after_date self hotkey st a) (file_path self hotkey (fst it)))) (snd it))"
      using Cons.prems(1) i by (intro Cons.IH) auto
    then show ?thesis by (simp add: old_content_after_date_other [OF ne])
  qed
qed

lemma dirs_after_date: "dirs (after_date self hotkey st item) = folder_dirs self hotkey (dirs st)"
  by (simp add: after_date_def Let_def)

lemma dirs_foldl_after_date:
  "dirs (foldl (after_date self hotkey) st items) =
     (if items = [] then dirs st else folder_dirs self hotkey (dirs st))"
proof (induction items arbitrary: st)
  case Nil
  show ?case by simp
next
  case (Cons a items)
  show ?case by (simp add: Cons.IH dirs_after_date folder_dirs_idem)
qed

lemma log_foldl_after_date:
  assumes "distinct (map (\<lambda>it. file_path self hotkey (fst it)) items)"
  shows "log (foldl (after_date self hotkey) st items) =
     log st @ map (\<lambda>it. InfoStored
        (length (filter (newer (mark_of (old_content st (file_path self hotkey (fst it))))) (snd it)))
        hotkey (fst it)) items"
  using assms
proof (induction items arbitrary: st)
  case Nil
  show ?case by simp
next
  case (Cons a items)
  have ne: "\<forall>i\<in>set items. file_path self hotkey (fst i) \<noteq> file_path self hotkey (fst a)"
    using Cons.prems by (force simp: image_iff)
  have "log (foldl (after_date self hotkey) (after_date self hotkey st a) items) =
     log (after_date self hotkey st a) @ map (\<lambda>it. InfoStored
        (length (filter (newer (mark_of (old_content (after_date self hotkey st a) (file_path self hotkey (fst it))))) (snd it)))
        hotkey (fst it)) items"
    using Cons.prems by (intro Cons.IH) auto
  also have "map (\<lambda>it. InfoStored
        (length (filter (newer (mark_of (old_content (after_date self hotkey st a) (file_path self hotkey (fst it))))) (snd it)))
        hotkey (fst it)) items = map (\<lambda>it. InfoStored
        (length (filter (newer (mark_of (old_content st (file_path self hotkey (fst it))))) (snd it)))
        hotkey (fst it)) items"
    using ne by (intro map_cong) (auto simp: old_content_after_date_other)
  finally show ?case by (simp add: after_date_def Let_def)
qed

lemma distinct_map_append:
  "distinct (map fst m) \<Longrightarrow> distinct (map fst (map_append k v m))"
proof (induction m)
  case Nil
  show ?case by simp
next
  case (Cons a m)
  obtain k' vs where a: "a = (k', vs)" by (cases a)
  have keys: "fst ` set (map_append k v m) = insert k (fst ` set m)" for m
  proof (induction m)
    case Nil show ?case by simp
  next
    case (Cons b m)
    then show ?case by (cases b) auto
  qed
  show ?case using Cons a keys [of m] by auto
qed

lemma keys_map_append: "fst ` set (map_append k v m) = insert k (fst ` set m)"
proof (induction m)
  case Nil show ?case by simp
next
  case (Cons b m)
  then show ?case by (cases b) auto
qed

lemma map_of_map_append:
  "map_of (map_append k v m) =
     (map_of m)(k \<mapsto> (case map_of m k of None \<Rightarrow> [v] | Some vs \<Rightarrow> vs @ [v]))"
proof (induction m)
  case Nil show ?case by simp
next
  case (Cons b m)
  then show ?case by (cases b) (auto simp: fun_eq_iff)
qed

lemma build_snoc:
  "build_file_lines_map (lines @ [l]) = add_line (build_file_lines_map lines) l"
  by (simp add: build_file_lines_map_def)

lemma distinct_build: "distinct (map fst (build_file_lines_map lines))"
proof (induction lines rule: rev_induct)
  case Nil
  show ?case by (simp add: build_file_lines_map_def)
next
  case (snoc l lines)
  then show ?case by (simp add: build_snoc add_line_def Let_def distinct_map_append)
qed

lemma keys_build: "fst ` set (build_file_lines_map lines) = (\<lambda>l. date_of (fst l)) ` set lines"
proof (induction lines rule: rev_induct)
  case Nil
  show ?case by (simp add: build_file_lines_map_def)
next
  case (snoc l lines)
  then show ?case by (auto simp: build_snoc add_line_def Let_def keys_map_append)
qed

lemma map_of_build:
  "map_of (build_file_lines_map lines) d =
     (if partition_of d lines = [] then None else Some (partition_of d lines))"
proof (induction lines rule: rev_induct)
  case Nil
  show ?case by (simp add: build_file_lines_map_def partition_of_def)
next
  case (snoc l lines)
  then show ?case
    by (auto simp: build_snoc add_line_def Let_def map_of_map_append partition_of_def)
qed

lemma build_items:
  assumes "it \<in> set (build_file_lines_map lines)"
  shows "snd it = partition_of (fst it) lines" and "fst it \<in> (\<lambda>l. date_of (fst l)) ` set lines"
proof -
  have "map_of (build_file_lines_map lines) (fst it) = Some (snd it)"
    using assms map_of_eq_Some_iff [OF distinct_build, of lines "fst it" "snd it"] by simp
  then show "snd it = partition_of (fst it) lines"
    by (simp add: map_of_build split: if_splits)
  show "fst it \<in> (\<lambda>l. date_of (fst l)) ` set lines"
    using assms keys_build [of lines] by blast
qed

lemma date_has_item:
  assumes "l \<in> set lines"
  shows "(date_of (fst l), partition_of (date_of (fst l)) lines) \<in> set (build_file_lines_map lines)"
proof -
  have "date_of (fst l) \<in> fst ` set (build_file_lines_map lines)"
    using assms keys_build [of lines] by blast
  then obtain it where it: "it \<in> set (build_file_lines_map lines)" "fst it = date_of (fst l)" by auto
  with build_items(1) [OF it(1)] show ?thesis by (cases it) auto
qed

lemma partition_of_parse:
  "\<forall>l\<in>set lines. strptime (fst l) \<noteq> None \<Longrightarrow> \<forall>l\<in>set (partition_of d lines). strptime (fst l) \<noteq> None"
  by (auto simp: partition_of_def)

lemma is_digit_not_slash: "is_digit c \<Longrightarrow> c \<noteq> CHR ''/''"
  by (auto simp: is_digit_def)

lemma is_digit_not_T: "is_digit c \<Longrightarrow> c \<noteq> CHR ''T''"
  by (auto simp: is_digit_def)

lemma date_of_takeWhile: "date_of ts = takeWhile (\<lambda>c. c \<noteq> CHR ''T'') ts"
  by (simp add: date_of_def hd_split_on)

lemma date_of_parsed:
  assumes "strptime ts = Some t"
  shows "\<not> startswith (date_of ts) ''/''"
proof -
  from strptime_shape [OF assms] obtain fY rest where
    s: "ts = fY @ rest" and d: "list_all is_digit fY" and n: "length fY = 4" by blast
  from n obtain a fY' where a: "fY = a # fY'" by (cases fY) auto
  with d have da: "is_digit a" by simp
  have "date_of ts = a # takeWhile (\<lambda>c. c \<noteq> CHR ''T'') (fY' @ rest)"
    using s a is_digit_not_T [OF da] by (simp add: date_of_takeWhile)
  then show ?thesis using is_digit_not_slash [OF da] by (simp add: startswith_def)
qed

lemma ts_char_not_slash: "ts_char c \<Longrightarrow> c \<noteq> CHR ''/''"
  by (auto simp: ts_char_def is_digit_def)

lemma date_of_no_slash:
  assumes "strptime ts = Some t"
  shows "CHR ''/'' \<notin> set (date_of ts)"
proof -
  from strptime_shape [OF assms] obtain fY rest where
    s: "ts = fY @ rest" and d: "list_all is_digit fY" and r: "list_all ts_char rest" by blast
  have "\<forall>c\<in>set ts. c \<noteq> CHR ''/''"
    using s d r ts_char_not_slash by (auto simp: list_all_iff ts_char_def)
  then show ?thesis by (auto simp: date_of_takeWhile dest: set_takeWhileD)
qed

lemma file_path_plain:
  assumes "\<not> startswith d ''/''"
  shows "file_path self hotkey d =
     (if folder_path self hotkey = [] \<or> last (folder_path self hotkey) = CHR ''/''
      then folder_path self hotkey else folder_path self hotkey @ ''/'') @ d @ ''.log''"
proof -
  have "\<not> startswith (d @ ''.log'') ''/''"
    using assms by (cases d) (auto simp: startswith_def)
  then show ?thesis by (simp add: file_path_def path_join_def)
qed

lemma file_path_inj:
  "\<not> startswith d1 ''/'' \<Longrightarrow> \<not> startswith d2 ''/'' \<Longrightarrow>
   file_path self hotkey d1 = file_path self hotkey d2 \<Longrightarrow> d1 = d2"
  by (simp add: file_path_plain)

lemma distinct_paths_build:
  assumes p: "\<forall>l\<in>set lines. strptime (fst l) \<noteq> None"
  shows "distinct (map (\<lambda>it. file_path self hotkey (fst it)) (build_file_lines_map lines))"
proof -
  have "inj_on (file_path self hotkey) (fst ` set (build_file_lines_map lines))"
  proof (rule inj_onI)
    fix d1 d2
    assume d1: "d1 \<in> fst ` set (build_file_lines_map lines)"
      and d2: "d2 \<in> fst ` set (build_file_lines_map lines)"
      and e: "file_path self hotkey d1 = file_path self hotkey d2"
    from d1 obtain l1 where l1: "l1 \<in> set lines" "d1 = date_of (fst l1)"
      unfolding keys_build by auto
    from d2 obtain l2 where l2: "l2 \<in> set lines" "d2 = date_of (fst l2)"
      unfolding keys_build by auto
    from p l1 obtain t1 where "strptime (fst l1) = Some t1" by auto
    then have n1: "\<not> startswith d1 ''/''" using l1 by (simp add: date_of_parsed)
    from p l2 obtain t2 where "strptime (fst l2) = Some t2" by auto
    then have n2: "\<not> startswith d2 ''/''" using l2 by (simp add: date_of_parsed)
    from file_path_inj [OF n1 n2 e] show "d1 = d2" .
  qed
  then have "distinct (map (file_path self hotkey) (map fst (build_file_lines_map lines)))"
    using distinct_build [of lines]
    by (subst distinct_map) simp
  then show ?thesis by (simp add: comp_def)
qed

lemma store_lines_ok:
  assumes p: "\<forall>l\<in>set lines. strptime (fst l) \<noteq> None"
    and r: "\<forall>l\<in>set lines. readable (old_content st (file_path self hotkey (date_of (fst l))))"
  shows "store_lines self hotkey lines st =
     (foldl (after_date self hotkey) st (build_file_lines_map lines), None)"
  unfolding store_lines_def
proof (rule store_dates_ok)
  show "distinct (map (\<lambda>it. file_path self hotkey (fst it)) (build_file_lines_map lines))"
    using p by (rule distinct_paths_build)
  show "\<forall>it\<in>set (build_file_lines_map lines). \<forall>l\<in>set (snd it). strptime (fst l) \<noteq> None"
    using partition_of_parse [OF p] by (auto simp: build_items(1))
  show "\<forall>it\<in>set (build_file_lines_map lines).
      readable (old_content st (file_path self hotkey (fst it)))"
    using r build_items(2) by fastforce
  show "\<forall>it\<in>set (build_file_lines_map lines). CHR ''/'' \<notin> set (fst it)"
  proof
    fix it assume "it \<in> set (build_file_lines_map lines)"
    from build_items(2) [OF this] obtain l where l: "l \<in> set lines" "fst it = date_of (fst l)"
      by auto
    from p l(1) obtain t where "strptime (fst l) = Some t" by auto
    from date_of_no_slash [OF this] l(2) show "CHR ''/'' \<notin> set (fst it)" by simp
  qed
qed

lemma store_lines_file:
  assumes p: "\<forall>l\<in>set lines. strptime (fst l) \<noteq> None"
    and r: "\<forall>l\<in>set lines. readable (old_content st (file_path self hotkey (date_of (fst l))))"
    and l: "l \<in> set lines" and d: "d = date_of (fst l)"
  shows "files (fst (store_lines self hotkey lines st)) (file_path self hotkey d) =
     Some (old_content st (file_path self hotkey d) @
           kept_text (mark_of (old_content st (file_path self hotkey d))) (partition_of d lines))"
proof -
  have "(d, partition_of d lines) \<in> set (build_file_lines_map lines)"
    using date_has_item [OF l] d by simp
  from files_foldl_after_date_same [OF distinct_paths_build [OF p] this, of self hotkey st]
  show ?thesis by (simp add: store_lines_ok [OF p r])
qed

lemma store_lines_other:
  assumes p: "\<forall>l\<in>set lines. strptime (fst l) \<noteq> None"
    and r: "\<forall>l\<in>set lines. readable (old_content st (file_path self hotkey (date_of (fst l))))"
    and o: "\<forall>l\<in>set lines. q \<noteq> file_path self hotkey (date_of (fst l))"
  shows "files (fst (store_lines self hotkey lines st)) q = files st q"
proof -
  have "q \<notin> (\<lambda>it. file_path self hotkey (fst it)) ` set (build_file_lines_map lines)"
    using o build_items(2) by fastforce
  from files_foldl_after_date_other [OF this]
  show ?thesis by (simp add: store_lines_ok [OF p r])
qed

lemma file_lines_eq_Nil: "file_lines s = [] \<longleftrightarrow> s = []"
  by (cases s) (auto split: list.splits)

lemma file_lines_single:
  "no_line_break body \<Longrightarrow> file_lines (body @ [LF]) = [body @ [LF]]"
  by (induction body) (auto simp: no_line_break_def LF_def CR_def split: list.splits)

lemma file_lines_append:
  "xs = [] \<or> last xs = LF \<Longrightarrow> file_lines (xs @ ys) = file_lines xs @ file_lines ys"
proof (induction xs rule: file_lines.induct)
  case 1
  show ?case by simp
next
  case (2 c cs)
  show ?case
  proof (cases "c = LF")
    case True
    with 2 show ?thesis by (cases cs) (auto split: if_splits)
  next
    case nlf: False
    show ?thesis
    proof (cases "c = CR")
      case True
      show ?thesis
      proof (cases cs)
        case Nil
        with 2(5) True show ?thesis by (simp add: LF_def CR_def)
      next
        case (Cons d ds)
        show ?thesis
        proof (cases "d = LF")
          case dl: True
          have "ds = [] \<or> last ds = LF" using 2(5) Cons by (auto split: if_splits)
          from 2(2) [OF nlf True Cons dl this] show ?thesis using nlf True Cons dl by simp
        next
          case dl: False
          have "cs = [] \<or> last cs = LF" using 2(5) Cons by (auto split: if_splits)
          from 2(3) [OF nlf True Cons dl this] show ?thesis using nlf True Cons dl by simp
        qed
      qed
    next
      case False
      have cs: "cs \<noteq> []" using 2(5) nlf by auto
      then have l: "cs = [] \<or> last cs = LF" using 2(5) by auto
      from 2(4) [OF nlf False l] have e: "file_lines (cs @ ys) = file_lines cs @ file_lines ys" .
      obtain a as where a: "file_lines cs = a # as"
        using cs file_lines_eq_Nil [of cs] by (cases "file_lines cs") auto
      show ?thesis using nlf False e a by simp
    qed
  qed
qed

lemma format_line_shape:
  "format_line ts c = (ts @ '' | '' @ c) @ [LF]"
  by (simp add: format_line_def)

lemma ts_char_not_break: "ts_char c \<Longrightarrow> c \<noteq> LF \<and> c \<noteq> CR \<and> c \<noteq> CHR ''|''"
  by (auto simp: ts_char_def is_digit_def LF_def CR_def)

lemma is_digit_ts_char: "is_digit c \<Longrightarrow> ts_char c"
  by (simp add: ts_char_def)

lemma is_digit_not_space: "is_digit c \<Longrightarrow> \<not> is_space c"
  by (auto simp: is_digit_def is_space_def Let_def)

lemma strptime_chars:
  assumes "strptime ts = Some t"
  shows "list_all ts_char ts" and "ts \<noteq> []" and "is_digit (hd ts)" and "is_digit (last ts)"
proof -
  from strptime_shape [OF assms] obtain fY rest where
    s: "ts = fY @ rest" and d: "list_all is_digit fY" and n: "length fY = 4"
    and r: "list_all ts_char rest" "rest \<noteq> []" "is_digit (last rest)" by blast
  from n obtain a fY' where a: "fY = a # fY'" by (cases fY) auto
  show "list_all ts_char ts" using s d r(1) by (auto simp: list_all_iff is_digit_ts_char)
  show "ts \<noteq> []" using s r(2) by simp
  show "is_digit (hd ts)" using s a d by simp
  show "is_digit (last ts)" using s r(2,3) by simp
qed

lemma strptime_no_line_break: "strptime ts = Some t \<Longrightarrow> no_line_break ts"
  using strptime_chars(1) [of ts t] ts_char_not_break
  by (auto simp: no_line_break_def list_all_iff)

lemma strip_ts_space:
  assumes "strptime ts = Some t"
  shows "strip (ts @ '' '') = ts"
proof -
  from strptime_chars [OF assms] have ne: "ts \<noteq> []" and h: "\<not> is_space (hd ts)"
    and l: "\<not> is_space (last ts)" by (auto simp: is_digit_not_space)
  have 1: "dropWhile is_space (ts @ '' '') = ts @ '' ''"
    using ne h by (cases ts) auto
  obtain a as where r: "rev ts = a # as" using ne by (cases "rev ts") auto
  then have "a = last ts" using hd_rev [of ts] by simp
  with l have "dropWhile is_space (a # as) = a # as" by simp
  then have 2: "dropWhile is_space (rev ts) = rev ts" unfolding r .
  show ?thesis by (simp add: strip_def 1 2 is_space_def)
qed

lemma get_datetime_from_log_format_line:
  assumes "strptime ts = Some t"
  shows "get_datetime_from_log (format_line ts c) = Inr t"
proof -
  have "\<forall>x\<in>set ts. x \<noteq> CHR ''|''"
    using strptime_chars(1) [OF assms] ts_char_not_break by (auto simp: list_all_iff)
  then have "takeWhile (\<lambda>c. c \<noteq> CHR ''|'') (ts @ '' | '' @ c @ [LF]) = ts @ '' ''"
    by (simp add: takeWhile_append2)
  then show ?thesis
    using assms by (simp add: get_datetime_from_log_def hd_split_on format_line_def strip_ts_space)
qed

lemma set_strip_level: "set (strip_level c) \<subseteq> set c"
proof -
  have "set (concat (drop 1 (split_on CHR ''|'' c))) \<subseteq> set c"
    unfolding concat_drop1_split_on by (auto dest: in_set_dropD set_dropWhileD)
  then show ?thesis by (simp add: strip_level_def)
qed

lemma no_line_break_strip_level: "no_line_break c \<Longrightarrow> no_line_break (strip_level c)"
  using set_strip_level [of c] by (auto simp: no_line_break_def)

lemma fold_last: "foldl (\<lambda>_ line. Some line) None xs = (if xs = [] then None else Some (last xs))"
proof -
  have "foldl (\<lambda>_ line. Some line) a xs = (if xs = [] then a else Some (last xs))" for a :: "'a option"
    by (induction xs arbitrary: a) auto
  then show ?thesis .
qed

lemma file_lines_no_empty: "l \<in> set (file_lines s) \<Longrightarrow> l \<noteq> []"
proof (induction s arbitrary: l rule: file_lines.induct)
  case 1
  then show ?case by simp
next
  case (2 c cs)
  show ?case
  proof (cases "c = LF")
    case True
    with 2 show ?thesis by auto
  next
    case nlf: False
    show ?thesis
    proof (cases "c = CR")
      case True
      show ?thesis
      proof (cases cs)
        case Nil
        with 2(5) nlf True show ?thesis by auto
      next
        case (Cons d ds)
        with 2 nlf True show ?thesis by (cases "d = LF") auto
      qed
    next
      case False
      with 2(4) [OF nlf False] 2(5) nlf show ?thesis by (cases "file_lines cs") auto
    qed
  qed
qed

lemma content_last_datetime_eq:
  "content_last_datetime content =
     (if file_lines content = [] then Inr None
      else (case get_datetime_from_log (last (file_lines content)) of
              Inl e \<Rightarrow> Inl e | Inr d \<Rightarrow> Inr (Some d)))"
proof (cases "file_lines content = []")
  case True
  then show ?thesis by (simp add: content_last_datetime_def fold_last)
next
  case False
  then have "last (file_lines content) \<noteq> []"
    using file_lines_no_empty [of "last (file_lines content)" content] by simp
  with False show ?thesis by (simp add: content_last_datetime_def fold_last)
qed

lemma file_lines_formatted:
  assumes "\<forall>l\<in>set ls. strptime (fst l) \<noteq> None \<and> no_line_break (snd l)"
  shows "file_lines (concat (map (\<lambda>l. format_line (fst l) (snd l)) ls)) =
     map (\<lambda>l. format_line (fst l) (snd l)) ls"
  using assms
proof (induction ls)
  case Nil
  show ?case by simp
next
  case (Cons l ls)
  from Cons.prems obtain t where t: "strptime (fst l) = Some t" and b: "no_line_break (snd l)" by auto
  have nb: "no_line_break (fst l @ '' | '' @ snd l)"
    using strptime_no_line_break [OF t] b by (auto simp: no_line_break_def LF_def CR_def)
  have "file_lines (format_line (fst l) (snd l) @ concat (map (\<lambda>l. format_line (fst l) (snd l)) ls))
      = file_lines (format_line (fst l) (snd l)) @ file_lines (concat (map (\<lambda>l. format_line (fst l) (snd l)) ls))"
    by (rule file_lines_append) (simp add: format_line_def)
  also have "file_lines (format_line (fst l) (snd l)) = [format_line (fst l) (snd l)]"
    unfolding format_line_shape using nb by (rule file_lines_single)
  finally show ?case using Cons by simp
qed

lemma file_lines_after:
  assumes "ends_with_newline old"
    and "\<forall>l\<in>set ls. strptime (fst l) \<noteq> None \<and> no_line_break (snd l)"
  shows "file_lines (old @ kept_text m ls) =
     file_lines old @ map (\<lambda>l. format_line (fst l) (snd l)) (filter (newer m) ls)"
proof -
  have "file_lines (old @ kept_text m ls) = file_lines old @ file_lines (kept_text m ls)"
    using assms(1) by (intro file_lines_append) (simp add: ends_with_newline_def)
  moreover have "file_lines (kept_text m ls) = map (\<lambda>l. format_line (fst l) (snd l)) (filter (newer m) ls)"
    unfolding kept_text_def using assms(2) by (intro file_lines_formatted) auto
  ultimately show ?thesis by simp
qed

lemma sorted_le_last: "sorted xs \<Longrightarrow> x \<in> set xs \<Longrightarrow> x \<le> last xs"
  by (induction xs) auto

lemma newer_Some:
  "strptime (fst l) \<noteq> None \<Longrightarrow> newer (Some T) l \<longleftrightarrow> T < time_of (fst l)"
  by (auto simp: newer_def time_of_def)

lemma kept_text_Nil: "filter (newer m) ls = [] \<Longrightarrow> kept_text m ls = []"
  by (simp add: kept_text_def)

lemma last_datetime_after:
  assumes e: "ends_with_newline old"
    and p: "\<forall>l\<in>set ls. strptime (fst l) \<noteq> None \<and> no_line_break (snd l)"
  shows "content_last_datetime (old @ kept_text m ls) =
     (if filter (newer m) ls = [] then content_last_datetime old
      else Inr (Some (time_of (fst (last (filter (newer m) ls))))))"
proof (cases "filter (newer m) ls = []")
  case True
  then show ?thesis by (simp add: kept_text_Nil)
next
  case False
  let ?k = "filter (newer m) ls"
  have "last ?k \<in> set ls" using False last_in_set [of ?k] by auto
  with p obtain t where t: "strptime (fst (last ?k)) = Some t" by auto
  have "last (file_lines (old @ kept_text m ls)) = format_line (fst (last ?k)) (snd (last ?k))"
    using False by (simp add: file_lines_after [OF e p] last_map)
  moreover have "file_lines (old @ kept_text m ls) \<noteq> []"
    using False by (simp add: file_lines_after [OF e p])
  ultimately show ?thesis
    using False t
    by (simp add: content_last_datetime_eq get_datetime_from_log_format_line [OF t] time_of_def)
qed

lemma second_pass_empty:
  assumes p: "\<forall>l\<in>set ls. strptime (fst l) \<noteq> None"
    and s: "sorted (map (\<lambda>k. time_of (fst k)) ls)"
    and k: "filter (newer m) ls \<noteq> []"
  shows "filter (newer (Some (time_of (fst (last (filter (newer m) ls)))))) ls = []"
proof -
  let ?k = "filter (newer m) ls"
  let ?T = "time_of (fst (last ?k))"
  have lk: "last ?k \<in> set ?k" using k by (rule last_in_set)
  have sk: "sorted (map (\<lambda>k. time_of (fst k)) ?k)" using s by (rule sorted_filter)
  have "\<not> newer (Some ?T) l" if l: "l \<in> set ls" for l
  proof -
    have pl: "strptime (fst l) \<noteq> None" using p l by simp
    have "time_of (fst l) \<le> ?T"
    proof (cases "newer m l")
      case True
      then have "time_of (fst l) \<in> set (map (\<lambda>k. time_of (fst k)) ?k)" using l by auto
      from sorted_le_last [OF sk this] show ?thesis using k by (simp add: last_map)
    next
      case False
      then obtain M where M: "m = Some M" by (cases m) (auto simp: newer_def)
      have 1: "time_of (fst l) \<le> M" using False M pl by (simp add: newer_Some not_less)
      have "strptime (fst (last ?k)) \<noteq> None" using p lk by auto
      moreover have "newer (Some M) (last ?k)" using lk M by auto
      ultimately have "M < ?T" by (simp add: newer_Some)
      with 1 show ?thesis by simp
    qed
    then show ?thesis using pl by (simp add: newer_Some not_less)
  qed
  then show ?thesis by (auto simp: filter_empty_conv)
qed

lemma readable_after:
  assumes e: "ends_with_newline old" and r: "readable old"
    and p: "\<forall>l\<in>set ls. strptime (fst l) \<noteq> None \<and> no_line_break (snd l)"
  shows "readable (old @ kept_text m ls)"
  using r by (simp add: readable_def last_datetime_after [OF e p])

lemma rerun_nothing_newer:
  assumes e: "ends_with_newline old"
    and p: "\<forall>l\<in>set ls. strptime (fst l) \<noteq> None \<and> no_line_break (snd l)"
    and s: "sorted (map (\<lambda>k. time_of (fst k)) ls)"
  shows "filter (newer (mark_of (old @ kept_text (mark_of old) ls))) ls = []"
proof (cases "filter (newer (mark_of old)) ls = []")
  case True
  then show ?thesis by (simp add: kept_text_Nil)
next
  case False
  have pp: "\<forall>l\<in>set ls. strptime (fst l) \<noteq> None" using p by simp
  have "mark_of (old @ kept_text (mark_of old) ls) =
      Some (time_of (fst (last (filter (newer (mark_of old)) ls))))"
    using False by (simp add: mark_of_def last_datetime_after [OF e p])
  then show ?thesis using second_pass_empty [OF pp s False] by simp
qed

lemma ends_with_newline_after:
  "ends_with_newline old \<Longrightarrow> ends_with_newline (old @ kept_text m ls)"
proof -
  have "xs = [] \<or> last xs = LF" if "xs = concat (map (\<lambda>l. format_line (fst l) (snd l)) ks)" for xs ks
    using that by (induction ks arbitrary: xs rule: rev_induct) (auto simp: format_line_def)
  then have "kept_text m ls = [] \<or> last (kept_text m ls) = LF"
    unfolding kept_text_def by blast
  then show "ends_with_newline old \<Longrightarrow> ends_with_newline (old @ kept_text m ls)"
    by (cases "kept_text m ls = []") (auto simp: ends_with_newline_def)
qed

lemma file_sorted_readable: "file_sorted old \<Longrightarrow> readable old"
proof -
  assume f: "file_sorted old"
  show "readable old"
  proof (cases "file_lines old = []")
    case True
    then show ?thesis by (simp add: readable_def content_last_datetime_eq)
  next
    case False
    then have "get_datetime_from_log (last (file_lines old)) \<in> set (line_times old)"
      by (simp add: line_times_def)
    with f have "\<not> isl (get_datetime_from_log (last (file_lines old)))"
      by (auto simp: file_sorted_def list_all_iff)
    with False show ?thesis
      by (cases "get_datetime_from_log (last (file_lines old))")
         (auto simp: readable_def content_last_datetime_eq)
  qed
qed

lemma file_sorted_mark:
  assumes f: "file_sorted old" and x: "x \<in> set (map projr (line_times old))"
  shows "\<exists>T. mark_of old = Some T \<and> x \<le> T"
proof -
  have ne: "file_lines old \<noteq> []" using x by (auto simp: line_times_def)
  have s: "sorted (map projr (line_times old))" using f by (simp add: file_sorted_def)
  have l: "last (map projr (line_times old)) = projr (get_datetime_from_log (last (file_lines old)))"
    using ne by (simp add: line_times_def last_map)
  have "get_datetime_from_log (last (file_lines old)) \<in> set (line_times old)"
    using ne by (simp add: line_times_def)
  with f have "\<not> isl (get_datetime_from_log (last (file_lines old)))"
    by (auto simp: file_sorted_def list_all_iff)
  then obtain T where T: "get_datetime_from_log (last (file_lines old)) = Inr T"
    by (cases "get_datetime_from_log (last (file_lines old))") auto
  then have "mark_of old = Some T" using ne by (simp add: mark_of_def content_last_datetime_eq)
  moreover have "x \<le> T" using sorted_le_last [OF s x] l T by simp
  ultimately show ?thesis by blast
qed

lemma file_sorted_after:
  assumes f: "file_sorted old" and e: "ends_with_newline old"
    and p: "\<forall>l\<in>set ls. strptime (fst l) \<noteq> None \<and> no_line_break (snd l)"
    and s: "sorted (map (\<lambda>k. time_of (fst k)) ls)"
  shows "file_sorted (old @ kept_text (mark_of old) ls)"
proof -
  let ?k = "filter (newer (mark_of old)) ls"
  have t: "get_datetime_from_log (format_line (fst l) (snd l)) = Inr (time_of (fst l))"
    if "l \<in> set ls" for l
  proof -
    from p that obtain t where "strptime (fst l) = Some t" by auto
    then show ?thesis by (simp add: get_datetime_from_log_format_line time_of_def)
  qed
  have lt: "line_times (old @ kept_text (mark_of old) ls) =
      line_times old @ map (\<lambda>l. Inr (time_of (fst l))) ?k"
    using t by (simp add: line_times_def file_lines_after [OF e p])
  have a: "list_all (\<lambda>r. \<not> isl r) (line_times old @ map (\<lambda>l. Inr (time_of (fst l))) ?k)"
    using f by (auto simp: file_sorted_def list_all_iff)
  have sk: "sorted (map (\<lambda>k. time_of (fst k)) ?k)" using s by (rule sorted_filter)
  have c: "x \<le> time_of (fst l)" if x: "x \<in> set (map projr (line_times old))" and l: "l \<in> set ?k" for x l
  proof -
    from file_sorted_mark [OF f x] obtain T where T: "mark_of old = Some T" "x \<le> T" by blast
    have "strptime (fst l) \<noteq> None" using p l by auto
    then have "T < time_of (fst l)" using l T(1) by (simp add: newer_Some)
    with T(2) show ?thesis by simp
  qed
  have "sorted (map projr (line_times old) @ map (\<lambda>k. time_of (fst k)) ?k)"
    using f sk c by (auto simp: sorted_append file_sorted_def)
  then have b: "sorted (map projr (line_times old @ map (\<lambda>l. Inr (time_of (fst l))) ?k))"
    by (simp add: comp_def)
  show ?thesis unfolding file_sorted_def lt using a b by simp
qed

section \<open>Evaluation of the example data\<close>

lemmas strptime_eval = strptime_def cut_def re_Y_def re_m_def re_d_def re_H_def re_M_def
  re_S_def re_f_def digits12_def is_digit_def digit_val_def int_of_digits_def datetime_new_def
  days_in_month_def is_leap_def

lemma strptime_ex1: "strptime ''2024-01-01T10:00:00.000000'' = Some (2024, 1, 1, 10, 0, 0, 0)"
  by (simp add: strptime_eval)

lemma strptime_ex2: "strptime ''2024-01-01T10:00:01.000000'' = Some (2024, 1, 1, 10, 0, 1, 0)"
  by (simp add: strptime_eval)

lemma strptime_ex3: "strptime ''2024-01-01T09:59:59.000000'' = Some (2024, 1, 1, 9, 59, 59, 0)"
  by (simp add: strptime_eval)

lemma strptime_ex4: "strptime ''2024-01-02T08:00:00.000000'' = Some (2024, 1, 2, 8, 0, 0, 0)"
  by (simp add: strptime_eval)

lemmas strptime_examples = strptime_ex1 strptime_ex2 strptime_ex3 strptime_ex4

lemma path_ex1: "file_path example_crawler ''hk'' ''2024-01-01'' = ''wandb_logs/hk/2024-01-01.log''"
  by (simp add: file_path_def folder_path_def path_join_def startswith_def example_crawler_def)

lemma path_ex2: "file_path example_crawler ''hk'' ''2024-01-02'' = ''wandb_logs/hk/2024-01-02.log''"
  by (simp add: file_path_def folder_path_def path_join_def startswith_def example_crawler_def)

lemma date_ex1: "date_of ''2024-01-01T10:00:00.000000'' = ''2024-01-01''"
  and date_ex2: "date_of ''2024-01-01T10:00:01.000000'' = ''2024-01-01''"
  and date_ex3: "date_of ''2024-01-01T09:59:59.000000'' = ''2024-01-01''"
  and date_ex4: "date_of ''2024-01-02T08:00:00.000000'' = ''2024-01-02''"
  by (simp_all add: date_of_def)

lemmas date_examples = date_ex1 date_ex2 date_ex3 date_ex4

lemma last_ex1:
  "content_last_datetime (format_line ''2024-01-01T10:00:00.000000'' ''first'') =
     Inr (Some (2024, 1, 1, 10, 0, 0, 0))"
proof -
  have "file_lines (format_line ''2024-01-01T10:00:00.000000'' ''first'') =
      [format_line ''2024-01-01T10:00:00.000000'' ''first'']"
    unfolding format_line_shape
    by (rule file_lines_single) (simp add: no_line_break_def LF_def CR_def)
  then show ?thesis
    by (simp add: content_last_datetime_eq get_datetime_from_log_format_line [OF strptime_ex1])
qed

lemma last_empty: "content_last_datetime [] = Inr None"
  by (simp add: content_last_datetime_def)

section \<open>The dedup filter\<close>

lemma strptime_ex5: "strptime ''2024-01-01T10:00:02.000000'' = Some (2024, 1, 1, 10, 0, 2, 0)"
  by (simp add: strptime_eval)

lemma strptime_ex6: "strptime ''2024-01-01T09:00:00.000000'' = Some (2024, 1, 1, 9, 0, 0, 0)"
  by (simp add: strptime_eval)

lemma strptime_bad: "strptime ''2024-01-01Tbad'' = None"
  by (simp add: strptime_eval)

lemma date_bad: "date_of ''2024-01-01Tbad'' = ''2024-01-01''"
  by (simp add: date_of_def)

lemma last_line_mark:
  assumes "ends_with_newline earlier" and "no_line_break c" and "strptime ts = Some T"
  shows "content_last_datetime (earlier @ format_line ts c) = Inr (Some T)"
proof -
  have nb: "no_line_break (ts @ '' | '' @ c)"
    using strptime_no_line_break [OF assms(3)] assms(2)
    by (auto simp: no_line_break_def LF_def CR_def)
  have 1: "file_lines (format_line ts c) = [format_line ts c]"
    unfolding format_line_shape using nb by (rule file_lines_single)
  have "file_lines (earlier @ format_line ts c) = file_lines earlier @ file_lines (format_line ts c)"
    using assms(1) by (intro file_lines_append) (simp add: ends_with_newline_def)
  then show ?thesis
    by (simp add: 1 content_last_datetime_eq get_datetime_from_log_format_line [OF assms(3)])
qed

lemma is_dir_hk: "is_dir {''wandb_logs'', ''wandb_logs/hk''} ''wandb_logs/hk''"
  by (simp add: is_dir_def strip_slash_def)

lemma folder_ex1: "folder_path example_crawler ''hk'' = ''wandb_logs/hk''"
  by (simp add: folder_path_def path_join_def startswith_def example_crawler_def)

lemma bad_batch_map:
  "build_file_lines_map bad_batch =
     [(''2024-01-01'', [(''2024-01-01Tbad'', ''x''), (''2024-01-01T10:00:02.000000'', ''y'')])]"
  by (simp add: build_file_lines_map_def add_line_def bad_batch_def date_bad date_of_def
      strip_level_def levels_def startswith_def)

lemma bad_batch_one_line:
  "store_lines example_crawler ''hk'' bad_batch one_line_state = (one_line_state, Some ValueError)"
proof -
  have e: "ensure_file_exist example_crawler ''hk'' ''2024-01-01'' one_line_state =
      (one_line_state, None)"
    by (simp add: ensure_file_exist_eq path_ex1 folder_dirs_def folder_ex1 one_line_state_def
        is_dir_hk)
  have g: "get_last_store_line_datetime example_crawler ''2024-01-01'' ''hk'' one_line_state =
      Inr (Some (2024, 1, 1, 10, 0, 0, 0))"
    by (simp add: get_last_store_line_datetime_def path_ex1 one_line_state_def last_ex1)
  have a: "append_file ''wandb_logs/hk/2024-01-01.log'' [] one_line_state = one_line_state"
    by (rule state.equality) (auto simp: append_file_def one_line_state_def)
  show ?thesis
    by (simp add: store_lines_def bad_batch_map store_date_def Let_def e g
        get_datetime_from_ts_str_def strptime_bad path_ex1 a)
qed

text \<open>
  C3. For a batch whose timestamps all parse, stored over files
  whose last lines parse: when the file of a date \<open>d\<close> of the batch exists and ends with
  the line of a timestamp that parses to \<open>T\<close>, \<open>store_lines\<close> appends to it exactly the
  lines of the date's partition whose timestamp parses to a value strictly greater than
  \<open>T\<close>, in their order in the batch, and skips the lines at or before \<open>T\<close> without an
  error.
\<close>

theorem store_lines_appends_newer:
  assumes "\<forall>l\<in>set lines. strptime (fst l) \<noteq> None"
    and "\<forall>l\<in>set lines. readable (old_content st (file_path self hotkey (date_of (fst l))))"
    and "l \<in> set lines" and "d = date_of (fst l)"
    and "files st (file_path self hotkey d) = Some (earlier @ format_line last_ts last_content)"
    and "ends_with_newline earlier" and "no_line_break last_content"
    and "strptime last_ts = Some T"
  shows "files (fst (store_lines self hotkey lines st)) (file_path self hotkey d) =
     Some (earlier @ format_line last_ts last_content @
        concat (map (\<lambda>k. format_line (fst k) (snd k))
          (filter (\<lambda>k. case strptime (fst k) of None \<Rightarrow> False | Some t \<Rightarrow> T < t)
             (partition_of d lines))))
     \<and> snd (store_lines self hotkey lines st) = None"
proof -
  let ?content = "earlier @ format_line last_ts last_content"
  have o: "old_content st (file_path self hotkey d) = ?content"
    using assms(5) by (simp add: old_content_def)
  have m: "mark_of ?content = Some T"
    using last_line_mark [OF assms(6,7,8)] by (simp add: mark_of_def)
  have n: "newer (Some T) = (\<lambda>k. case strptime (fst k) of None \<Rightarrow> False | Some t \<Rightarrow> T < t)"
    by (simp add: newer_def fun_eq_iff)
  show ?thesis
    using store_lines_file [OF assms(1,2,3,4)] store_lines_ok [OF assms(1,2)]
    by (simp add: o m kept_text_def n)
qed

theorem store_lines_appends_newer_witness:
  "files (fst (store_lines example_crawler ''hk'' dedup_batch two_line_state))
     ''wandb_logs/hk/2024-01-01.log'' =
   Some (format_line ''2024-01-01T09:00:00.000000'' ''zero'' @
         format_line ''2024-01-01T10:00:00.000000'' ''first'' @
         format_line ''2024-01-01T10:00:01.000000'' '' late'')
   \<and> snd (store_lines example_crawler ''hk'' dedup_batch two_line_state) = None"
proof -
  have e: "ends_with_newline (format_line ''2024-01-01T09:00:00.000000'' ''zero'')"
    by (simp add: ends_with_newline_def format_line_def)
  have b: "no_line_break ''first''" "no_line_break ''zero''"
    by (simp_all add: no_line_break_def LF_def CR_def)
  have lm: "content_last_datetime (format_line ''2024-01-01T09:00:00.000000'' ''zero'' @
      format_line ''2024-01-01T10:00:00.000000'' ''first'') = Inr (Some (2024, 1, 1, 10, 0, 0, 0))"
    using e b(1) strptime_ex1 by (rule last_line_mark)
  have h1: "\<forall>l\<in>set dedup_batch. strptime (fst l) \<noteq> None"
    by (simp add: dedup_batch_def strptime_examples)
  have h2: "\<forall>l\<in>set dedup_batch.
      readable (old_content two_line_state (file_path example_crawler ''hk'' (date_of (fst l))))"
    by (simp add: dedup_batch_def date_examples path_ex1 old_content_def two_line_state_def
        readable_def lm)
  have h3: "(''2024-01-01T10:00:01.000000'', ''DEBUG | late'') \<in> set dedup_batch"
    by (simp add: dedup_batch_def)
  have h4: "''2024-01-01'' = date_of (fst (''2024-01-01T10:00:01.000000'', ''DEBUG | late''))"
    by (simp add: date_examples)
  have h5: "files two_line_state (file_path example_crawler ''hk'' ''2024-01-01'') =
      Some (format_line ''2024-01-01T09:00:00.000000'' ''zero'' @
            format_line ''2024-01-01T10:00:00.000000'' ''first'')"
    by (simp add: path_ex1 two_line_state_def)
  have p: "partition_of ''2024-01-01'' dedup_batch =
      [(''2024-01-01T09:59:59.000000'', ''early''),
       (''2024-01-01T10:00:01.000000'', '' late''),
       (''2024-01-01T10:00:00.000000'', ''same'')]"
    by (simp add: partition_of_def dedup_batch_def date_examples strip_level_def levels_def
        startswith_def)
  show ?thesis
    using store_lines_appends_newer [OF h1 h2 h3 h4 h5 e b(1) strptime_ex1]
    by (simp add: p path_ex1 strptime_examples)
qed

text \<open>
  C3 as stated fails on a batch with a timestamp that does not parse: the file ends
  with a line of 10:00:00, the second line of the batch is of 10:00:02, and the call
  raises ValueError on the first line and appends nothing.
\<close>

theorem unparsed_line_stops_the_date:
  "files one_line_state ''wandb_logs/hk/2024-01-01.log'' =
     Some (format_line ''2024-01-01T10:00:00.000000'' ''first'')
   \<and> strptime ''2024-01-01T10:00:00.000000'' = Some (2024, 1, 1, 10, 0, 0, 0)
   \<and> strptime ''2024-01-01T10:00:02.000000'' = Some (2024, 1, 1, 10, 0, 2, 0)
   \<and> store_lines example_crawler ''hk'' bad_batch one_line_state =
       (one_line_state, Some ValueError)"
proof -
  have "files one_line_state ''wandb_logs/hk/2024-01-01.log'' =
      Some (format_line ''2024-01-01T10:00:00.000000'' ''first'')"
    by (simp add: one_line_state_def)
  then show ?thesis
    by (simp add: bad_batch_one_line strptime_ex1 strptime_ex5)
qed

section \<open>The file without lines\<close>

lemma mark_of_empty: "mark_of [] = None"
  by (simp add: mark_of_def last_empty)

lemma newer_None: "newer None = (\<lambda>k. True)"
  by (simp add: newer_def fun_eq_iff)

lemma kept_text_None: "kept_text None ls = concat (map (\<lambda>k. format_line (fst k) (snd k)) ls)"
  by (simp add: kept_text_def newer_None)

lemma bad_batch_empty_file:
  "store_lines example_crawler ''hk'' bad_batch empty_file_state =
     (empty_file_state, Some ValueError)"
proof -
  have e: "ensure_file_exist example_crawler ''hk'' ''2024-01-01'' empty_file_state =
      (empty_file_state, None)"
    by (simp add: ensure_file_exist_eq path_ex1 folder_dirs_def folder_ex1 empty_file_state_def
        is_dir_hk)
  have g: "get_last_store_line_datetime example_crawler ''2024-01-01'' ''hk'' empty_file_state =
      Inr None"
    by (simp add: get_last_store_line_datetime_def path_ex1 empty_file_state_def last_empty)
  have a: "append_file ''wandb_logs/hk/2024-01-01.log'' [] empty_file_state = empty_file_state"
    by (rule state.equality) (auto simp: append_file_def empty_file_state_def)
  show ?thesis
    by (simp add: store_lines_def bad_batch_map store_date_def Let_def e g
        get_datetime_from_ts_str_def strptime_bad path_ex1 a)
qed

text \<open>
  C7. For a batch whose timestamps all parse, stored over files whose last lines parse:
  when the file of a date of the batch exists and holds no line,
  \<open>get_last_store_line_datetime\<close> returns no high-water mark, and \<open>store_lines\<close>
  writes every line of the date's partition into it, in batch order, whatever the
  values of their timestamps, and raises nothing.
\<close>

theorem empty_file_gets_every_line:
  assumes "\<forall>l\<in>set lines. strptime (fst l) \<noteq> None"
    and "\<forall>l\<in>set lines. readable (old_content st (file_path self hotkey (date_of (fst l))))"
    and "l \<in> set lines" and "d = date_of (fst l)"
    and "files st (file_path self hotkey d) = Some []"
  shows "get_last_store_line_datetime self d hotkey st = Inr None
     \<and> files (fst (store_lines self hotkey lines st)) (file_path self hotkey d) =
         Some (concat (map (\<lambda>k. format_line (fst k) (snd k)) (partition_of d lines)))
     \<and> snd (store_lines self hotkey lines st) = None"
proof -
  have o: "old_content st (file_path self hotkey d) = []"
    using assms(5) by (simp add: old_content_def)
  have g: "get_last_store_line_datetime self d hotkey st = Inr None"
    using assms(5) by (simp add: get_last_store_line_datetime_def last_empty)
  show ?thesis
    using store_lines_file [OF assms(1,2,3,4)] store_lines_ok [OF assms(1,2)] g
    by (simp add: o mark_of_empty kept_text_None)
qed

theorem empty_file_gets_every_line_witness:
  "get_last_store_line_datetime example_crawler ''2024-01-01'' ''hk'' empty_file_state = Inr None
   \<and> files (fst (store_lines example_crawler ''hk'' dedup_batch empty_file_state))
     ''wandb_logs/hk/2024-01-01.log'' =
   Some (format_line ''2024-01-01T09:59:59.000000'' ''early'' @
         format_line ''2024-01-01T10:00:01.000000'' '' late'' @
         format_line ''2024-01-01T10:00:00.000000'' ''same'')
   \<and> snd (store_lines example_crawler ''hk'' dedup_batch empty_file_state) = None"
proof -
  have h1: "\<forall>l\<in>set dedup_batch. strptime (fst l) \<noteq> None"
    by (simp add: dedup_batch_def strptime_examples)
  have h2: "\<forall>l\<in>set dedup_batch.
      readable (old_content empty_file_state (file_path example_crawler ''hk'' (date_of (fst l))))"
    by (simp add: dedup_batch_def date_examples path_ex1 old_content_def empty_file_state_def
        readable_def last_empty)
  have h3: "(''2024-01-01T10:00:01.000000'', ''DEBUG | late'') \<in> set dedup_batch"
    by (simp add: dedup_batch_def)
  have h4: "''2024-01-01'' = date_of (fst (''2024-01-01T10:00:01.000000'', ''DEBUG | late''))"
    by (simp add: date_examples)
  have h5: "files empty_file_state (file_path example_crawler ''hk'' ''2024-01-01'') = Some []"
    by (simp add: path_ex1 empty_file_state_def)
  have p: "partition_of ''2024-01-01'' dedup_batch =
      [(''2024-01-01T09:59:59.000000'', ''early''),
       (''2024-01-01T10:00:01.000000'', '' late''),
       (''2024-01-01T10:00:00.000000'', ''same'')]"
    by (simp add: partition_of_def dedup_batch_def date_examples strip_level_def levels_def
        startswith_def)
  show ?thesis
    using empty_file_gets_every_line [OF h1 h2 h3 h4 h5]
    by (simp add: p path_ex1)
qed

text \<open>
  C7 as stated fails on a batch with a timestamp that does not parse: the file exists
  and holds no line, \<open>get_last_store_line_datetime\<close> returns no high-water mark,
  and the call raises ValueError on the first line of the partition; the second line,
  whose timestamp parses, is not appended and the file still holds no line.
\<close>

theorem unparsed_line_leaves_empty_file:
  "files empty_file_state ''wandb_logs/hk/2024-01-01.log'' = Some []
   \<and> get_last_store_line_datetime example_crawler ''2024-01-01'' ''hk'' empty_file_state = Inr None
   \<and> partition_of ''2024-01-01'' bad_batch =
       [(''2024-01-01Tbad'', ''x''), (''2024-01-01T10:00:02.000000'', ''y'')]
   \<and> snd (store_lines example_crawler ''hk'' bad_batch empty_file_state) = Some ValueError
   \<and> files (fst (store_lines example_crawler ''hk'' bad_batch empty_file_state))
       ''wandb_logs/hk/2024-01-01.log'' = Some []"
proof -
  have f: "files empty_file_state ''wandb_logs/hk/2024-01-01.log'' = Some []"
    by (simp add: empty_file_state_def)
  have g: "get_last_store_line_datetime example_crawler ''2024-01-01'' ''hk'' empty_file_state =
      Inr None"
    by (simp add: get_last_store_line_datetime_def path_ex1 empty_file_state_def last_empty)
  have p: "partition_of ''2024-01-01'' bad_batch =
      [(''2024-01-01Tbad'', ''x''), (''2024-01-01T10:00:02.000000'', ''y'')]"
    by (simp add: partition_of_def bad_batch_def date_bad date_of_def strip_level_def
        levels_def startswith_def)
  show ?thesis
    using f g p by (simp add: bad_batch_empty_file)
qed

section \<open>Severity markers\<close>

lemma startswith_iff: "startswith s p \<longleftrightarrow> (\<exists>q. s = p @ q)"
proof
  assume "startswith s p"
  then have "s = p @ drop (length p) s"
    unfolding startswith_def using append_take_drop_id [of "length p" s] by simp
  then show "\<exists>q. s = p @ q" ..
next
  assume "\<exists>q. s = p @ q"
  then show "startswith s p" by (auto simp: startswith_def)
qed

lemma contains_iff: "contains sub s \<longleftrightarrow> (\<exists>p q. s = p @ sub @ q)"
proof (induction s)
  case Nil
  show ?case by auto
next
  case (Cons c cs)
  show ?case
  proof
    assume "contains sub (c # cs)"
    then consider "startswith (c # cs) sub" | "contains sub cs" by auto
    then show "\<exists>p q. c # cs = p @ sub @ q"
    proof cases
      case 1
      then obtain q where "c # cs = sub @ q" by (auto simp: startswith_iff)
      then have "c # cs = [] @ sub @ q" by simp
      then show ?thesis by blast
    next
      case 2
      with Cons obtain p q where "cs = p @ sub @ q" by auto
      then have "c # cs = (c # p) @ sub @ q" by simp
      then show ?thesis by blast
    qed
  next
    assume "\<exists>p q. c # cs = p @ sub @ q"
    then obtain p q where e: "c # cs = p @ sub @ q" by blast
    show "contains sub (c # cs)"
    proof (cases p)
      case Nil
      with e have "startswith (c # cs) sub" by (auto simp: startswith_iff)
      then show ?thesis by simp
    next
      case (Cons a p')
      with e have "cs = p' @ sub @ q" by simp
      then have "contains sub cs" using Cons.IH by blast
      then show ?thesis by simp
    qed
  qed
qed

lemma contains_prefix_segment:
  "contains sub (takeWhile P s) \<Longrightarrow> contains sub s"
proof -
  assume "contains sub (takeWhile P s)"
  then obtain p q where "takeWhile P s = p @ sub @ q" by (auto simp: contains_iff)
  then have "s = p @ sub @ (q @ dropWhile P s)"
    using takeWhile_dropWhile_id [of P s] by simp
  then show ?thesis unfolding contains_iff by blast
qed

lemma strip_level_marked:
  "list_ex (\<lambda>level. contains level content) levels \<Longrightarrow>
   strip_level content = concat (drop 1 (split_on CHR ''|'' content))"
  by (simp add: strip_level_def)

lemma strip_level_unmarked:
  "\<not> list_ex (\<lambda>level. contains level content) levels \<Longrightarrow> strip_level content = content"
  by (simp add: strip_level_def)

lemma no_pipe_no_tail: "sep \<notin> set s \<Longrightarrow> concat (drop 1 (split_on sep s)) = []"
  by (simp add: split_on_no_sep)

lemma kept_text_partition:
  "kept_text m (partition_of d lines) =
     concat (map (\<lambda>k. format_line (fst k) (strip_level (snd k)))
       (filter (\<lambda>k. date_of (fst k) = d \<and> newer m k) lines))"
proof -
  have n: "newer m (fst k, c) = newer m k" for k :: log_line and c
    by (cases m) (simp_all add: newer_def)
  show ?thesis
    by (induction lines) (auto simp: kept_text_def partition_of_def n)
qed

lemma store_lines_single:
  assumes "strptime ts \<noteq> None"
    and "readable (old_content st (file_path self hotkey (date_of ts)))"
  shows "files (fst (store_lines self hotkey [(ts, content)] st)) (file_path self hotkey (date_of ts)) =
     Some (old_content st (file_path self hotkey (date_of ts)) @
       (if newer (mark_of (old_content st (file_path self hotkey (date_of ts)))) (ts, content)
        then format_line ts (strip_level content) else []))"
proof -
  have h1: "\<forall>l\<in>set [(ts, content)]. strptime (fst l) \<noteq> None" using assms(1) by simp
  have h2: "\<forall>l\<in>set [(ts, content)].
      readable (old_content st (file_path self hotkey (date_of (fst l))))"
    using assms(2) by simp
  have n: "newer m (ts, strip_level content) = newer m (ts, content)" for m
    by (cases m) (simp_all add: newer_def)
  have k: "kept_text m (partition_of (date_of ts) [(ts, content)]) =
      (if newer m (ts, content) then format_line ts (strip_level content) else [])" for m
    by (simp add: kept_text_def partition_of_def n)
  show ?thesis
    using store_lines_file [OF h1 h2, of "(ts, content)" "date_of ts"]
    by (simp add: k)
qed

text \<open>
  C5. A line whose content contains one of SUCCESS, TRACE, ERROR, WARNING, INFO, DEBUG
  anywhere is stored with the concatenation, without separator, of the segments of its
  content after the first \<^verbatim>\<open>|\<close>, which is the empty string when the content has no
  \<^verbatim>\<open>|\<close>: the text \<open>store_lines\<close> appends to the file of a date is made of the lines of
  that date that pass the high-water mark, each written with its content so replaced.
\<close>

theorem level_anywhere_keeps_segments_after_first_pipe:
  assumes "\<forall>l\<in>set lines. strptime (fst l) \<noteq> None"
    and "\<forall>l\<in>set lines. readable (old_content st (file_path self hotkey (date_of (fst l))))"
    and "(ts, content) \<in> set lines"
    and "list_ex (\<lambda>level. contains level content) levels"
  shows "strip_level content = concat (drop 1 (split_on CHR ''|'' content))
     \<and> (CHR ''|'' \<notin> set content \<longrightarrow> strip_level content = [])
     \<and> files (fst (store_lines self hotkey lines st)) (file_path self hotkey (date_of ts)) =
         Some (old_content st (file_path self hotkey (date_of ts)) @
           concat (map (\<lambda>k. format_line (fst k) (strip_level (snd k)))
             (filter (\<lambda>k. date_of (fst k) = date_of ts \<and>
                  newer (mark_of (old_content st (file_path self hotkey (date_of ts)))) k)
                lines)))"
  using store_lines_file [OF assms(1,2,3)] strip_level_marked [OF assms(4)]
  by (simp add: kept_text_partition no_pipe_no_tail del: One_nat_def)

theorem level_anywhere_keeps_segments_after_first_pipe_witness:
  "strip_level ''a|b|c INFO'' = ''bc INFO''
   \<and> strip_level ''an ERROR without pipe'' = []
   \<and> files (fst (store_lines example_crawler ''hk'' level_batch empty_state))
       ''wandb_logs/hk/2024-01-01.log'' =
     Some (format_line ''2024-01-01T10:00:00.000000'' ''bc INFO'' @
           format_line ''2024-01-01T10:00:01.000000'' [])"
proof -
  have h1: "\<forall>l\<in>set level_batch. strptime (fst l) \<noteq> None"
    by (simp add: level_batch_def strptime_examples)
  have h2: "\<forall>l\<in>set level_batch.
      readable (old_content empty_state (file_path example_crawler ''hk'' (date_of (fst l))))"
    by (simp add: level_batch_def old_content_def empty_state_def readable_def last_empty)
  have h3: "(''2024-01-01T10:00:00.000000'', ''a|b|c INFO'') \<in> set level_batch"
    by (simp add: level_batch_def)
  have h4: "list_ex (\<lambda>level. contains level ''a|b|c INFO'') levels"
    by (simp add: levels_def startswith_def)
  have o: "old_content empty_state q = []" for q
    by (simp add: old_content_def empty_state_def)
  have s: "strip_level ''a|b|c INFO'' = ''bc INFO''" "strip_level ''an ERROR without pipe'' = []"
    by (simp_all add: strip_level_def levels_def startswith_def)
  show ?thesis
    using level_anywhere_keeps_segments_after_first_pipe [OF h1 h2 h3 h4]
    by (simp add: s o mark_of_empty newer_None level_batch_def date_examples path_ex1)
qed

text \<open>
  C4, as the code has it. For a batch whose timestamps all parse, stored over files whose
  last lines parse: every line of the batch whose content has a level in its first
  \<^verbatim>\<open>|\<close>-delimited segment is stored with the content after the first \<^verbatim>\<open>|\<close> from which
  every further \<^verbatim>\<open>|\<close> is removed; that is the content after the first \<^verbatim>\<open>|\<close> itself
  when no further \<^verbatim>\<open>|\<close> follows. Every line whose content contains no level anywhere
  is stored with its content unchanged. The text \<open>store_lines\<close> appends to the file of a
  date is made of the lines of that date that pass the high-water mark, each written
  with its content so treated.
\<close>

theorem marker_prefix_is_stripped:
  assumes "\<forall>l\<in>set lines. strptime (fst l) \<noteq> None"
    and "\<forall>l\<in>set lines. readable (old_content st (file_path self hotkey (date_of (fst l))))"
    and "(ts, content) \<in> set lines"
  shows "(CHR ''|'' \<in> set content \<and>
          list_ex (\<lambda>level. contains level (takeWhile (\<lambda>c. c \<noteq> CHR ''|'') content)) levels \<longrightarrow>
          strip_level content =
            filter (\<lambda>c. c \<noteq> CHR ''|'') (drop 1 (dropWhile (\<lambda>c. c \<noteq> CHR ''|'') content)))
     \<and> (CHR ''|'' \<in> set content \<and>
          list_ex (\<lambda>level. contains level (takeWhile (\<lambda>c. c \<noteq> CHR ''|'') content)) levels \<and>
          CHR ''|'' \<notin> set (drop 1 (dropWhile (\<lambda>c. c \<noteq> CHR ''|'') content)) \<longrightarrow>
          strip_level content = drop 1 (dropWhile (\<lambda>c. c \<noteq> CHR ''|'') content))
     \<and> (\<not> list_ex (\<lambda>level. contains level content) levels \<longrightarrow> strip_level content = content)
     \<and> files (fst (store_lines self hotkey lines st)) (file_path self hotkey (date_of ts)) =
         Some (old_content st (file_path self hotkey (date_of ts)) @
           concat (map (\<lambda>k. format_line (fst k) (strip_level (snd k)))
             (filter (\<lambda>k. date_of (fst k) = date_of ts \<and>
                  newer (mark_of (old_content st (file_path self hotkey (date_of ts)))) k)
                lines)))"
proof -
  have m: "strip_level content =
      filter (\<lambda>c. c \<noteq> CHR ''|'') (drop 1 (dropWhile (\<lambda>c. c \<noteq> CHR ''|'') content))"
    if "list_ex (\<lambda>level. contains level (takeWhile (\<lambda>c. c \<noteq> CHR ''|'') content)) levels"
  proof -
    from that have "list_ex (\<lambda>level. contains level content) levels"
      by (auto simp: list_ex_iff intro: contains_prefix_segment)
    then show ?thesis by (simp add: strip_level_marked concat_drop1_split_on del: One_nat_def)
  qed
  have f: "filter (\<lambda>c. c \<noteq> CHR ''|'') xs = xs" if "CHR ''|'' \<notin> set xs" for xs
    using that by (induction xs) auto
  have a: "files (fst (store_lines self hotkey lines st)) (file_path self hotkey (date_of ts)) =
         Some (old_content st (file_path self hotkey (date_of ts)) @
           concat (map (\<lambda>k. format_line (fst k) (strip_level (snd k)))
             (filter (\<lambda>k. date_of (fst k) = date_of ts \<and>
                  newer (mark_of (old_content st (file_path self hotkey (date_of ts)))) k)
                lines)))"
    using store_lines_file [OF assms(1,2,3)] by (simp add: kept_text_partition)
  show ?thesis
    using a m f by (simp add: strip_level_unmarked del: One_nat_def)
qed

theorem marker_prefix_is_stripped_witness:
  "strip_level ''INFO | hello'' = '' hello''
   \<and> strip_level ''world'' = ''world''
   \<and> files (fst (store_lines example_crawler ''hk'' sorted_batch empty_state))
       ''wandb_logs/hk/2024-01-01.log'' =
     Some (format_line ''2024-01-01T10:00:00.000000'' '' hello'' @
           format_line ''2024-01-01T10:00:01.000000'' ''world'')"
proof -
  have h1: "\<forall>l\<in>set sorted_batch. strptime (fst l) \<noteq> None"
    by (simp add: sorted_batch_def strptime_examples)
  have o: "old_content empty_state q = []" for q
    by (simp add: old_content_def empty_state_def)
  have h2: "\<forall>l\<in>set sorted_batch.
      readable (old_content empty_state (file_path example_crawler ''hk'' (date_of (fst l))))"
    by (simp add: o readable_def last_empty)
  have h3: "(''2024-01-01T10:00:00.000000'', ''INFO | hello'') \<in> set sorted_batch"
    by (simp add: sorted_batch_def)
  have c: "list_ex (\<lambda>level. contains level (takeWhile (\<lambda>c. c \<noteq> CHR ''|'') ''INFO | hello'')) levels"
    by (simp add: levels_def startswith_def)
  have s: "strip_level ''INFO | hello'' = '' hello''" "strip_level ''world'' = ''world''"
    by (simp_all add: strip_level_def levels_def startswith_def)
  have r: "files (fst (store_lines example_crawler ''hk'' sorted_batch empty_state))
       (file_path example_crawler ''hk'' (date_of ''2024-01-01T10:00:00.000000'')) =
         Some (old_content empty_state
             (file_path example_crawler ''hk'' (date_of ''2024-01-01T10:00:00.000000'')) @
           concat (map (\<lambda>k. format_line (fst k) (strip_level (snd k)))
             (filter (\<lambda>k. date_of (fst k) = date_of ''2024-01-01T10:00:00.000000'' \<and>
                  newer (mark_of (old_content empty_state
                    (file_path example_crawler ''hk'' (date_of ''2024-01-01T10:00:00.000000'')))) k)
                sorted_batch)))"
    using marker_prefix_is_stripped [OF h1 h2 h3] by blast
  show ?thesis
    using r by (simp add: s o mark_of_empty newer_None sorted_batch_def date_examples path_ex1)
qed

text \<open>
  C4 as stated fails on a content with a second \<^verbatim>\<open>|\<close>: for \<^verbatim>\<open>INFO | a | b\<close> the content
  after the first \<^verbatim>\<open>|\<close> is \<^verbatim>\<open> a | b\<close>, and the line stored is \<^verbatim>\<open> a  b\<close>.
\<close>

theorem later_pipes_are_dropped:
  "files (fst (store_lines example_crawler ''hk'' pipe_batch empty_state))
       ''wandb_logs/hk/2024-01-01.log'' =
     Some (format_line ''2024-01-01T10:00:00.000000'' '' a  b'')
   \<and> drop 1 (dropWhile (\<lambda>c. c \<noteq> CHR ''|'') ''INFO | a | b'') = '' a | b''
   \<and> format_line ''2024-01-01T10:00:00.000000'' '' a  b'' \<noteq>
     format_line ''2024-01-01T10:00:00.000000'' '' a | b''"
proof -
  have h1: "strptime ''2024-01-01T10:00:00.000000'' \<noteq> None"
    by (simp add: strptime_examples)
  have o: "old_content empty_state q = []" for q
    by (simp add: old_content_def empty_state_def)
  have h2: "readable (old_content empty_state
      (file_path example_crawler ''hk'' (date_of ''2024-01-01T10:00:00.000000'')))"
    by (simp add: o readable_def last_empty)
  have s: "strip_level ''INFO | a | b'' = '' a  b''"
    by (simp add: strip_level_def levels_def startswith_def)
  have a: "files (fst (store_lines example_crawler ''hk'' pipe_batch empty_state))
       ''wandb_logs/hk/2024-01-01.log'' =
     Some (format_line ''2024-01-01T10:00:00.000000'' '' a  b'')"
    using store_lines_single [OF h1 h2, of "''INFO | a | b''"]
    by (simp add: pipe_batch_def o mark_of_empty newer_None s date_examples path_ex1)
  have b: "format_line ''2024-01-01T10:00:00.000000'' '' a  b'' \<noteq>
     format_line ''2024-01-01T10:00:00.000000'' '' a | b''"
    by (simp add: format_line_def)
  from a b show ?thesis by simp
qed

section \<open>Timestamp order of a file\<close>

lemma partition_of_map:
  "partition_of d lines =
     map (\<lambda>l. (fst l, strip_level (snd l))) (filter (\<lambda>l. date_of (fst l) = d) lines)"
  by (simp add: partition_of_def filter_map comp_def)

lemma date_sorted_partition:
  assumes "date_sorted lines" and "l \<in> set lines"
  shows "sorted (map (\<lambda>k. time_of (fst k)) (partition_of (date_of (fst l)) lines))"
  using assms by (simp add: date_sorted_def list_all_iff partition_of_map comp_def)

lemma partition_of_clean:
  assumes "\<forall>l\<in>set lines. strptime (fst l) \<noteq> None" and "\<forall>l\<in>set lines. no_line_break (snd l)"
  shows "\<forall>k\<in>set (partition_of d lines). strptime (fst k) \<noteq> None \<and> no_line_break (snd k)"
  using assms by (auto simp: partition_of_map no_line_break_strip_level)

lemma old_content_after_store:
  assumes p: "\<forall>l\<in>set lines. strptime (fst l) \<noteq> None"
    and r: "\<forall>l\<in>set lines. readable (old_content st (file_path self hotkey (date_of (fst l))))"
    and l: "l \<in> set lines"
  shows "old_content (fst (store_lines self hotkey lines st)) (file_path self hotkey (date_of (fst l))) =
     old_content st (file_path self hotkey (date_of (fst l))) @
       kept_text (mark_of (old_content st (file_path self hotkey (date_of (fst l)))))
         (partition_of (date_of (fst l)) lines)"
  using store_lines_file [OF p r l refl] by (simp add: old_content_def)

lemma old_content_unchanged:
  assumes p: "\<forall>l\<in>set lines. strptime (fst l) \<noteq> None"
    and r: "\<forall>l\<in>set lines. readable (old_content st (file_path self hotkey (date_of (fst l))))"
    and o: "\<forall>l\<in>set lines. q \<noteq> file_path self hotkey (date_of (fst l))"
  shows "old_content (fst (store_lines self hotkey lines st)) q = old_content st q"
  using store_lines_other [OF p r o] by (simp add: old_content_def)

text \<open>
  C2, as the code has it. When every date partition of the batch is itself in
  non-decreasing timestamp order (the timestamps parse, the contents hold no line
  break, and the files of the batch's dates end with a line feed or are empty), a file
  whose lines are in non-decreasing timestamp order is still so after \<open>store_lines\<close>.
\<close>

theorem sorted_batch_keeps_file_sorted:
  assumes "\<forall>l\<in>set lines. strptime (fst l) \<noteq> None"
    and "\<forall>l\<in>set lines. no_line_break (snd l)"
    and "\<forall>l\<in>set lines. readable (old_content st (file_path self hotkey (date_of (fst l))))"
    and "\<forall>l\<in>set lines. ends_with_newline (old_content st (file_path self hotkey (date_of (fst l))))"
    and "date_sorted lines"
    and "file_sorted (old_content st q)"
  shows "file_sorted (old_content (fst (store_lines self hotkey lines st)) q)"
proof (cases "\<exists>l\<in>set lines. q = file_path self hotkey (date_of (fst l))")
  case True
  then obtain l where l: "l \<in> set lines" and q: "q = file_path self hotkey (date_of (fst l))"
    by blast
  let ?old = "old_content st q"
  let ?part = "partition_of (date_of (fst l)) lines"
  have e: "ends_with_newline ?old" using assms(4) l q by simp
  have c: "\<forall>k\<in>set ?part. strptime (fst k) \<noteq> None \<and> no_line_break (snd k)"
    using assms(1,2) by (rule partition_of_clean)
  have s: "sorted (map (\<lambda>k. time_of (fst k)) ?part)"
    using assms(5) l by (rule date_sorted_partition)
  have "file_sorted (?old @ kept_text (mark_of ?old) ?part)"
    using assms(6) e c s by (rule file_sorted_after)
  then show ?thesis
    using old_content_after_store [OF assms(1,3) l] q by simp
next
  case False
  then have "\<forall>l\<in>set lines. q \<noteq> file_path self hotkey (date_of (fst l))" by blast
  from old_content_unchanged [OF assms(1,3) this] assms(6) show ?thesis by simp
qed

lemma sorted_batch_dates: "date_of (fst l) = ''2024-01-01''" if "l \<in> set sorted_batch"
  using that by (auto simp: sorted_batch_def date_examples)

lemma time_of_ex1: "time_of ''2024-01-01T10:00:00.000000'' = (2024, 1, 1, 10, 0, 0, 0)"
  and time_of_ex2: "time_of ''2024-01-01T10:00:01.000000'' = (2024, 1, 1, 10, 0, 1, 0)"
  by (simp_all add: time_of_def strptime_examples)

lemma sorted_batch_hyps:
  "\<forall>l\<in>set sorted_batch. strptime (fst l) \<noteq> None"
  "\<forall>l\<in>set sorted_batch. no_line_break (snd l)"
  "\<forall>l\<in>set sorted_batch.
     readable (old_content one_line_state (file_path example_crawler ''hk'' (date_of (fst l))))"
  "\<forall>l\<in>set sorted_batch.
     ends_with_newline (old_content one_line_state (file_path example_crawler ''hk'' (date_of (fst l))))"
  "date_sorted sorted_batch"
proof -
  show "\<forall>l\<in>set sorted_batch. strptime (fst l) \<noteq> None"
    by (simp add: sorted_batch_def strptime_examples)
  show "\<forall>l\<in>set sorted_batch. no_line_break (snd l)"
    by (simp add: sorted_batch_def no_line_break_def LF_def CR_def)
  have o: "old_content one_line_state ''wandb_logs/hk/2024-01-01.log'' =
      format_line ''2024-01-01T10:00:00.000000'' ''first''"
    by (simp add: old_content_def one_line_state_def)
  show "\<forall>l\<in>set sorted_batch.
     readable (old_content one_line_state (file_path example_crawler ''hk'' (date_of (fst l))))"
    by (simp add: sorted_batch_dates path_ex1 o readable_def last_ex1)
  show "\<forall>l\<in>set sorted_batch.
     ends_with_newline (old_content one_line_state (file_path example_crawler ''hk'' (date_of (fst l))))"
    by (simp add: sorted_batch_dates path_ex1 o ends_with_newline_def format_line_def)
  show "date_sorted sorted_batch"
    by (simp add: date_sorted_def sorted_batch_def date_examples time_of_ex1 time_of_ex2)
qed

lemma file_sorted_one_line:
  "file_sorted (format_line ''2024-01-01T10:00:00.000000'' ''first'')"
proof -
  have "file_lines (format_line ''2024-01-01T10:00:00.000000'' ''first'') =
      [format_line ''2024-01-01T10:00:00.000000'' ''first'']"
    unfolding format_line_shape
    by (rule file_lines_single) (simp add: no_line_break_def LF_def CR_def)
  then show ?thesis
    by (simp add: file_sorted_def line_times_def
        get_datetime_from_log_format_line [OF strptime_ex1])
qed

theorem sorted_batch_keeps_file_sorted_witness:
  "file_sorted (old_content (fst (store_lines example_crawler ''hk'' sorted_batch one_line_state))
     ''wandb_logs/hk/2024-01-01.log'')"
proof -
  have o: "old_content one_line_state ''wandb_logs/hk/2024-01-01.log'' =
      format_line ''2024-01-01T10:00:00.000000'' ''first''"
    by (simp add: old_content_def one_line_state_def)
  have f: "file_sorted (old_content one_line_state ''wandb_logs/hk/2024-01-01.log'')"
    unfolding o by (rule file_sorted_one_line)
  from sorted_batch_keeps_file_sorted [OF sorted_batch_hyps f] show ?thesis .
qed

text \<open>
  C2 as stated fails on a batch that is out of order in itself: stored into an empty
  file, both lines are appended in received order, and the file is no longer sorted.
\<close>

theorem unsorted_batch_leaves_file_unsorted:
  "files (fst (store_lines example_crawler ''hk'' unsorted_batch empty_file_state))
       ''wandb_logs/hk/2024-01-01.log'' =
     Some (format_line ''2024-01-01T10:00:01.000000'' ''a'' @
           format_line ''2024-01-01T10:00:00.000000'' ''b'')
   \<and> file_sorted []
   \<and> \<not> file_sorted (format_line ''2024-01-01T10:00:01.000000'' ''a'' @
                     format_line ''2024-01-01T10:00:00.000000'' ''b'')"
proof -
  have h1: "\<forall>l\<in>set unsorted_batch. strptime (fst l) \<noteq> None"
    by (simp add: unsorted_batch_def strptime_examples)
  have h2: "\<forall>l\<in>set unsorted_batch.
      readable (old_content empty_file_state (file_path example_crawler ''hk'' (date_of (fst l))))"
    by (simp add: unsorted_batch_def date_examples path_ex1 old_content_def empty_file_state_def
        readable_def last_empty)
  have h3: "(''2024-01-01T10:00:01.000000'', ''a'') \<in> set unsorted_batch"
    by (simp add: unsorted_batch_def)
  have h4: "''2024-01-01'' = date_of (fst (''2024-01-01T10:00:01.000000'', ''a''))"
    by (simp add: date_examples)
  have o: "old_content empty_file_state ''wandb_logs/hk/2024-01-01.log'' = []"
    by (simp add: old_content_def empty_file_state_def)
  have p: "partition_of ''2024-01-01'' unsorted_batch = unsorted_batch"
    by (simp add: partition_of_def unsorted_batch_def date_examples strip_level_def levels_def
        startswith_def)
  have a: "files (fst (store_lines example_crawler ''hk'' unsorted_batch empty_file_state))
       ''wandb_logs/hk/2024-01-01.log'' =
     Some (format_line ''2024-01-01T10:00:01.000000'' ''a'' @
           format_line ''2024-01-01T10:00:00.000000'' ''b'')"
    using store_lines_file [OF h1 h2 h3 h4]
    by (simp add: path_ex1 o mark_of_empty kept_text_None p) (simp add: unsorted_batch_def)
  have b: "file_sorted []" by (simp add: file_sorted_def line_times_def)
  have c: "\<forall>l\<in>set unsorted_batch. strptime (fst l) \<noteq> None \<and> no_line_break (snd l)"
    by (simp add: unsorted_batch_def strptime_examples no_line_break_def LF_def CR_def)
  have "file_lines (concat (map (\<lambda>l. format_line (fst l) (snd l)) unsorted_batch)) =
      map (\<lambda>l. format_line (fst l) (snd l)) unsorted_batch"
    using c by (rule file_lines_formatted)
  then have fl: "file_lines (format_line ''2024-01-01T10:00:01.000000'' ''a'' @
      format_line ''2024-01-01T10:00:00.000000'' ''b'') =
      [format_line ''2024-01-01T10:00:01.000000'' ''a'',
       format_line ''2024-01-01T10:00:00.000000'' ''b'']"
    by (simp add: unsorted_batch_def)
  have d: "\<not> file_sorted (format_line ''2024-01-01T10:00:01.000000'' ''a'' @
                     format_line ''2024-01-01T10:00:00.000000'' ''b'')"
    by (simp add: file_sorted_def line_times_def fl
        get_datetime_from_log_format_line [OF strptime_ex1]
        get_datetime_from_log_format_line [OF strptime_ex2])
  from a b d show ?thesis by blast
qed

section \<open>Running the same batch again\<close>

lemma rerun_hyps:
  assumes p: "\<forall>l\<in>set lines. strptime (fst l) \<noteq> None"
    and b: "\<forall>l\<in>set lines. no_line_break (snd l)"
    and r: "\<forall>l\<in>set lines. readable (old_content st (file_path self hotkey (date_of (fst l))))"
    and e: "\<forall>l\<in>set lines. ends_with_newline (old_content st (file_path self hotkey (date_of (fst l))))"
    and s: "date_sorted lines"
    and l: "l \<in> set lines"
  shows "readable (old_content (fst (store_lines self hotkey lines st))
            (file_path self hotkey (date_of (fst l))))"
    and "filter (newer (mark_of (old_content (fst (store_lines self hotkey lines st))
            (file_path self hotkey (date_of (fst l))))))
          (partition_of (date_of (fst l)) lines) = []"
proof -
  let ?q = "file_path self hotkey (date_of (fst l))"
  let ?old = "old_content st ?q"
  let ?part = "partition_of (date_of (fst l)) lines"
  have o: "old_content (fst (store_lines self hotkey lines st)) ?q =
      ?old @ kept_text (mark_of ?old) ?part"
    using p r l by (rule old_content_after_store)
  have c: "\<forall>k\<in>set ?part. strptime (fst k) \<noteq> None \<and> no_line_break (snd k)"
    using p b by (rule partition_of_clean)
  have en: "ends_with_newline ?old" using e l by simp
  have rd: "readable ?old" using r l by simp
  have so: "sorted (map (\<lambda>k. time_of (fst k)) ?part)" using s l by (rule date_sorted_partition)
  show "readable (old_content (fst (store_lines self hotkey lines st)) ?q)"
    unfolding o using en rd c by (rule readable_after)
  show "filter (newer (mark_of (old_content (fst (store_lines self hotkey lines st)) ?q))) ?part = []"
    unfolding o using en c so by (rule rerun_nothing_newer)
qed

text \<open>
  C1, as the code has it. When every date partition of the batch is in non-decreasing
  timestamp order (the timestamps parse, the contents hold no line break, and the files
  of the batch's dates are empty or end with a line feed after a last line that parses),
  running \<open>store_lines\<close> a second time with the same batch on the state the first run
  left appends nothing: it raises nothing, leaves every file and folder as it is, and
  logs a count of 0 for each date.
\<close>

theorem rerun_of_sorted_batch_appends_nothing:
  assumes "\<forall>l\<in>set lines. strptime (fst l) \<noteq> None"
    and "\<forall>l\<in>set lines. no_line_break (snd l)"
    and "\<forall>l\<in>set lines. readable (old_content st (file_path self hotkey (date_of (fst l))))"
    and "\<forall>l\<in>set lines. ends_with_newline (old_content st (file_path self hotkey (date_of (fst l))))"
    and "date_sorted lines"
  shows "store_lines self hotkey lines (fst (store_lines self hotkey lines st)) =
     ((fst (store_lines self hotkey lines st))
        \<lparr>log := log (fst (store_lines self hotkey lines st)) @
           map (\<lambda>d. InfoStored 0 hotkey d) (map fst (build_file_lines_map lines))\<rparr>,
      None)"
proof -
  let ?items = "build_file_lines_map lines"
  let ?st' = "fst (store_lines self hotkey lines st)"
  let ?fp = "file_path self hotkey"
  have dp: "distinct (map (\<lambda>it. ?fp (fst it)) ?items)"
    using assms(1) by (rule distinct_paths_build)
  have first: "?st' = foldl (after_date self hotkey) st ?items"
    using store_lines_ok [OF assms(1,3)] by simp
  have r': "\<forall>l\<in>set lines. readable (old_content ?st' (?fp (date_of (fst l))))"
    using rerun_hyps(1) [OF assms] by blast
  have second: "store_lines self hotkey lines ?st' = (foldl (after_date self hotkey) ?st' ?items, None)"
    using assms(1) r' by (rule store_lines_ok)
  have item: "\<exists>l\<in>set lines. fst it = date_of (fst l) \<and> snd it = partition_of (date_of (fst l)) lines"
    if "it \<in> set ?items" for it
    using build_items [OF that] by auto
  have none: "filter (newer (mark_of (old_content ?st' (?fp (fst it))))) (snd it) = []"
    if "it \<in> set ?items" for it
  proof -
    from item [OF that] obtain l where l: "l \<in> set lines" "fst it = date_of (fst l)"
      "snd it = partition_of (date_of (fst l)) lines" by blast
    from rerun_hyps(2) [OF assms l(1)] l(2,3) show ?thesis by simp
  qed
  have d: "dirs (foldl (after_date self hotkey) ?st' ?items) = dirs ?st'"
    unfolding dirs_foldl_after_date first by (simp add: folder_dirs_idem)
  have f: "files (foldl (after_date self hotkey) ?st' ?items) = files ?st'"
  proof
    fix q
    show "files (foldl (after_date self hotkey) ?st' ?items) q = files ?st' q"
    proof (cases "q \<in> (\<lambda>it. ?fp (fst it)) ` set ?items")
      case True
      then obtain it where it: "it \<in> set ?items" "q = ?fp (fst it)" by blast
      have x: "files ?st' q \<noteq> None"
        using files_foldl_after_date_same [OF dp it(1), of st] it(2) first by simp
      have "files (foldl (after_date self hotkey) ?st' ?items) q = Some (old_content ?st' q)"
        using files_foldl_after_date_same [OF dp it(1), of ?st'] it(2) none [OF it(1)]
        by (simp add: kept_text_def)
      then show ?thesis using x by (auto simp: old_content_def)
    next
      case False
      then show ?thesis by (rule files_foldl_after_date_other)
    qed
  qed
  have g: "log (foldl (after_date self hotkey) ?st' ?items) =
      log ?st' @ map (\<lambda>d. InfoStored 0 hotkey d) (map fst ?items)"
    unfolding log_foldl_after_date [OF dp] using none by (simp add: comp_def)
  have "foldl (after_date self hotkey) ?st' ?items =
      ?st'\<lparr>log := log ?st' @ map (\<lambda>d. InfoStored 0 hotkey d) (map fst ?items)\<rparr>"
    by (rule state.equality) (simp_all add: d f g)
  with second show ?thesis by simp
qed

theorem rerun_of_sorted_batch_appends_nothing_witness:
  "store_lines example_crawler ''hk'' sorted_batch
     (fst (store_lines example_crawler ''hk'' sorted_batch one_line_state)) =
   ((fst (store_lines example_crawler ''hk'' sorted_batch one_line_state))
      \<lparr>log := log (fst (store_lines example_crawler ''hk'' sorted_batch one_line_state)) @
         [InfoStored 0 ''hk'' ''2024-01-01'']\<rparr>,
    None)"
proof -
  have k: "map fst (build_file_lines_map sorted_batch) = [''2024-01-01'']"
    by (simp add: build_file_lines_map_def add_line_def sorted_batch_def date_examples)
  from rerun_of_sorted_batch_appends_nothing [OF sorted_batch_hyps] show ?thesis
    by (simp add: k)
qed

lemma unsorted_batch_parses: "\<forall>l\<in>set unsorted_batch. strptime (fst l) \<noteq> None"
  by (simp add: unsorted_batch_def strptime_examples)

lemma unsorted_batch_partition: "partition_of ''2024-01-01'' unsorted_batch = unsorted_batch"
  by (simp add: partition_of_def unsorted_batch_def date_examples strip_level_def levels_def
      startswith_def)

lemma unsorted_batch_readable:
  "\<forall>l\<in>set unsorted_batch.
      readable (old_content empty_file_state (file_path example_crawler ''hk'' (date_of (fst l))))"
  by (simp add: unsorted_batch_def date_examples path_ex1 old_content_def empty_file_state_def
      readable_def last_empty)

lemma unsorted_first_run:
  "files (fst (store_lines example_crawler ''hk'' unsorted_batch empty_file_state))
       ''wandb_logs/hk/2024-01-01.log'' =
     Some (format_line ''2024-01-01T10:00:01.000000'' ''a'' @
           format_line ''2024-01-01T10:00:00.000000'' ''b'')"
proof -
  have h3: "(''2024-01-01T10:00:01.000000'', ''a'') \<in> set unsorted_batch"
    by (simp add: unsorted_batch_def)
  have h4: "''2024-01-01'' = date_of (fst (''2024-01-01T10:00:01.000000'', ''a''))"
    by (simp add: date_examples)
  have o: "old_content empty_file_state ''wandb_logs/hk/2024-01-01.log'' = []"
    by (simp add: old_content_def empty_file_state_def)
  show ?thesis
    using store_lines_file [OF unsorted_batch_parses unsorted_batch_readable h3 h4]
    by (simp add: path_ex1 o mark_of_empty kept_text_None unsorted_batch_partition)
       (simp add: unsorted_batch_def)
qed

lemma unsorted_first_run_mark:
  "content_last_datetime (format_line ''2024-01-01T10:00:01.000000'' ''a'' @
      format_line ''2024-01-01T10:00:00.000000'' ''b'') = Inr (Some (2024, 1, 1, 10, 0, 0, 0))"
proof -
  have c: "\<forall>l\<in>set unsorted_batch. strptime (fst l) \<noteq> None \<and> no_line_break (snd l)"
    by (simp add: unsorted_batch_def strptime_examples no_line_break_def LF_def CR_def)
  have "file_lines (concat (map (\<lambda>l. format_line (fst l) (snd l)) unsorted_batch)) =
      map (\<lambda>l. format_line (fst l) (snd l)) unsorted_batch"
    using c by (rule file_lines_formatted)
  then have "file_lines (format_line ''2024-01-01T10:00:01.000000'' ''a'' @
      format_line ''2024-01-01T10:00:00.000000'' ''b'') =
      [format_line ''2024-01-01T10:00:01.000000'' ''a'',
       format_line ''2024-01-01T10:00:00.000000'' ''b'']"
    by (simp add: unsorted_batch_def)
  then show ?thesis
    by (simp add: content_last_datetime_eq get_datetime_from_log_format_line [OF strptime_ex1])
qed

text \<open>
  C1 as stated fails on a batch that is out of order in itself. Stored into an empty
  file, both lines are appended; the last line of the file then carries the smaller
  timestamp, and the second run appends the first line of the batch again.
\<close>

theorem rerun_of_unsorted_batch_appends_a_line:
  "files (fst (store_lines example_crawler ''hk'' unsorted_batch empty_file_state))
       ''wandb_logs/hk/2024-01-01.log'' =
     Some (format_line ''2024-01-01T10:00:01.000000'' ''a'' @
           format_line ''2024-01-01T10:00:00.000000'' ''b'')
   \<and> files (fst (store_lines example_crawler ''hk'' unsorted_batch
         (fst (store_lines example_crawler ''hk'' unsorted_batch empty_file_state))))
       ''wandb_logs/hk/2024-01-01.log'' =
     Some (format_line ''2024-01-01T10:00:01.000000'' ''a'' @
           format_line ''2024-01-01T10:00:00.000000'' ''b'' @
           format_line ''2024-01-01T10:00:01.000000'' ''a'')"
proof -
  let ?st' = "fst (store_lines example_crawler ''hk'' unsorted_batch empty_file_state)"
  have o: "old_content ?st' ''wandb_logs/hk/2024-01-01.log'' =
      format_line ''2024-01-01T10:00:01.000000'' ''a'' @
      format_line ''2024-01-01T10:00:00.000000'' ''b''"
    by (simp add: old_content_def unsorted_first_run)
  have r: "readable (old_content ?st' ''wandb_logs/hk/2024-01-01.log'')"
    by (simp add: o readable_def unsorted_first_run_mark)
  have dt: "date_of (fst l) = ''2024-01-01''" if "l \<in> set unsorted_batch" for l
    using that by (auto simp: unsorted_batch_def date_examples)
  have h2: "\<forall>l\<in>set unsorted_batch.
      readable (old_content ?st' (file_path example_crawler ''hk'' (date_of (fst l))))"
    using r by (simp add: dt path_ex1)
  have h3: "(''2024-01-01T10:00:01.000000'', ''a'') \<in> set unsorted_batch"
    by (simp add: unsorted_batch_def)
  have h4: "''2024-01-01'' = date_of (fst (''2024-01-01T10:00:01.000000'', ''a''))"
    by (simp add: date_examples)
  have m: "mark_of (format_line ''2024-01-01T10:00:01.000000'' ''a'' @
      format_line ''2024-01-01T10:00:00.000000'' ''b'') = Some (2024, 1, 1, 10, 0, 0, 0)"
    by (simp add: mark_of_def unsorted_first_run_mark)
  have k: "kept_text (mark_of (format_line ''2024-01-01T10:00:01.000000'' ''a'' @
      format_line ''2024-01-01T10:00:00.000000'' ''b'')) unsorted_batch =
      format_line ''2024-01-01T10:00:01.000000'' ''a''"
    by (simp add: m kept_text_def newer_def unsorted_batch_def strptime_examples)
  have "files (fst (store_lines example_crawler ''hk'' unsorted_batch ?st'))
       ''wandb_logs/hk/2024-01-01.log'' =
     Some (format_line ''2024-01-01T10:00:01.000000'' ''a'' @
           format_line ''2024-01-01T10:00:00.000000'' ''b'' @
           format_line ''2024-01-01T10:00:01.000000'' ''a'')"
    using store_lines_file [OF unsorted_batch_parses h2 h3 h4]
    by (simp add: path_ex1 o unsorted_batch_partition k)
  with unsorted_first_run show ?thesis by simp
qed

section \<open>Dates and files\<close>

lemma last_ex2:
  "content_last_datetime (format_line ''2024-01-01T09:00:00.000000'' ''zero'' @
      format_line ''2024-01-01T10:00:00.000000'' ''first'') = Inr (Some (2024, 1, 1, 10, 0, 0, 0))"
proof -
  have e: "ends_with_newline (format_line ''2024-01-01T09:00:00.000000'' ''zero'')"
    by (simp add: ends_with_newline_def format_line_def)
  have b: "no_line_break ''first''"
    by (simp add: no_line_break_def LF_def CR_def)
  show ?thesis using e b strptime_ex1 by (rule last_line_mark)
qed

lemma newer_after:
  "newer (Some T) = (\<lambda>k. case strptime (fst k) of None \<Rightarrow> False | Some t \<Rightarrow> T < t)"
  by (simp add: newer_def fun_eq_iff)

lemma two_day_partitions:
  "partition_of ''2024-01-01'' two_day_batch =
     [(''2024-01-01T10:00:00.000000'', '' hello''), (''2024-01-01T10:00:01.000000'', ''world'')]"
  "partition_of ''2024-01-02'' two_day_batch = [(''2024-01-02T08:00:00.000000'', ''next day'')]"
  by (simp_all add: partition_of_def two_day_batch_def date_examples strip_level_def levels_def
      startswith_def)

text \<open>
  C6, as the code has it. For a batch whose timestamps all parse, stored over files
  whose last lines parse, and two distinct dates \<open>d1\<close> and \<open>d2\<close> carried by lines of
  the batch (the date is the part of the timestamp before its first \<open>T\<close>):
  \<open>store_lines\<close> writes into two distinct files, and the file of each date receives,
  in batch order, exactly the lines of its own date that pass the file's high-water
  mark. These are all the lines of the date when the file was absent or empty, and the
  lines of the date with a timestamp strictly greater than \<open>T\<close> when the file ends with
  the line of a timestamp that parses to \<open>T\<close>.
\<close>

theorem two_dates_two_files:
  assumes "\<forall>l\<in>set lines. strptime (fst l) \<noteq> None"
    and "\<forall>l\<in>set lines. readable (old_content st (file_path self hotkey (date_of (fst l))))"
    and "l1 \<in> set lines" and "d1 = date_of (fst l1)"
    and "l2 \<in> set lines" and "d2 = date_of (fst l2)"
    and "d1 \<noteq> d2"
  shows "file_path self hotkey d1 \<noteq> file_path self hotkey d2
     \<and> (\<forall>d\<in>{d1, d2}.
          files (fst (store_lines self hotkey lines st)) (file_path self hotkey d) =
            Some (old_content st (file_path self hotkey d) @
                  concat (map (\<lambda>k. format_line (fst k) (snd k))
                    (filter (newer (mark_of (old_content st (file_path self hotkey d))))
                       (partition_of d lines))))
          \<and> (old_content st (file_path self hotkey d) = [] \<longrightarrow>
               files (fst (store_lines self hotkey lines st)) (file_path self hotkey d) =
                 Some (concat (map (\<lambda>k. format_line (fst k) (snd k)) (partition_of d lines))))
          \<and> (\<forall>earlier last_ts last_content T.
               old_content st (file_path self hotkey d) = earlier @ format_line last_ts last_content
               \<and> ends_with_newline earlier \<and> no_line_break last_content
               \<and> strptime last_ts = Some T \<longrightarrow>
               files (fst (store_lines self hotkey lines st)) (file_path self hotkey d) =
                 Some (earlier @ format_line last_ts last_content @
                       concat (map (\<lambda>k. format_line (fst k) (snd k))
                         (filter (\<lambda>k. case strptime (fst k) of None \<Rightarrow> False | Some t \<Rightarrow> T < t)
                            (partition_of d lines))))))"
proof -
  from assms(1,3) obtain t1 where "strptime (fst l1) = Some t1" by auto
  then have n1: "\<not> startswith d1 ''/''" using assms(4) by (simp add: date_of_parsed)
  from assms(1,5) obtain t2 where "strptime (fst l2) = Some t2" by auto
  then have n2: "\<not> startswith d2 ''/''" using assms(6) by (simp add: date_of_parsed)
  have a: "file_path self hotkey d1 \<noteq> file_path self hotkey d2"
    using file_path_inj [OF n1 n2] assms(7) by blast
  have b: "files (fst (store_lines self hotkey lines st)) (file_path self hotkey d) =
            Some (old_content st (file_path self hotkey d) @
                  concat (map (\<lambda>k. format_line (fst k) (snd k))
                    (filter (newer (mark_of (old_content st (file_path self hotkey d))))
                       (partition_of d lines))))"
    if "d \<in> {d1, d2}" for d
  proof -
    from that assms(3-6) have "\<exists>l. l \<in> set lines \<and> d = date_of (fst l)" by blast
    then obtain l where "l \<in> set lines" "d = date_of (fst l)" by blast
    from store_lines_file [OF assms(1,2) this] show ?thesis by (simp add: kept_text_def)
  qed
  have c: "mark_of (earlier @ format_line last_ts last_content) = Some T"
    if "ends_with_newline earlier" "no_line_break last_content" "strptime last_ts = Some T"
    for earlier last_ts last_content T
    using last_line_mark [OF that] by (simp add: mark_of_def)
  show ?thesis
    using a b by (auto simp: mark_of_empty newer_None c newer_after)
qed

theorem two_dates_two_files_witness:
  "''wandb_logs/hk/2024-01-01.log'' \<noteq> ''wandb_logs/hk/2024-01-02.log''
   \<and> files (fst (store_lines example_crawler ''hk'' two_day_batch two_line_state))
       ''wandb_logs/hk/2024-01-01.log'' =
     Some (format_line ''2024-01-01T09:00:00.000000'' ''zero'' @
           format_line ''2024-01-01T10:00:00.000000'' ''first'' @
           format_line ''2024-01-01T10:00:01.000000'' ''world'')
   \<and> files (fst (store_lines example_crawler ''hk'' two_day_batch two_line_state))
       ''wandb_logs/hk/2024-01-02.log'' =
     Some (format_line ''2024-01-02T08:00:00.000000'' ''next day'')"
proof -
  have o1: "old_content two_line_state ''wandb_logs/hk/2024-01-01.log'' =
      format_line ''2024-01-01T09:00:00.000000'' ''zero'' @
      format_line ''2024-01-01T10:00:00.000000'' ''first''"
    by (simp add: old_content_def two_line_state_def)
  have o2: "old_content two_line_state ''wandb_logs/hk/2024-01-02.log'' = []"
    by (simp add: old_content_def two_line_state_def)
  have h1: "\<forall>l\<in>set two_day_batch. strptime (fst l) \<noteq> None"
    by (simp add: two_day_batch_def strptime_examples)
  have h2: "\<forall>l\<in>set two_day_batch.
      readable (old_content two_line_state (file_path example_crawler ''hk'' (date_of (fst l))))"
    by (simp add: two_day_batch_def date_examples path_ex1 path_ex2 o1 o2 readable_def
        last_ex2 last_empty)
  have h3: "(''2024-01-01T10:00:00.000000'', ''INFO | hello'') \<in> set two_day_batch"
    by (simp add: two_day_batch_def)
  have h4: "''2024-01-01'' = date_of (fst (''2024-01-01T10:00:00.000000'', ''INFO | hello''))"
    by (simp add: date_examples)
  have h5: "(''2024-01-02T08:00:00.000000'', ''next day'') \<in> set two_day_batch"
    by (simp add: two_day_batch_def)
  have h6: "''2024-01-02'' = date_of (fst (''2024-01-02T08:00:00.000000'', ''next day''))"
    by (simp add: date_examples)
  have h7: "''2024-01-01'' \<noteq> ''2024-01-02''" by simp
  note th = two_dates_two_files [OF h1 h2 h3 h4 h5 h6 h7]
  have a: "file_path example_crawler ''hk'' ''2024-01-01'' \<noteq>
      file_path example_crawler ''hk'' ''2024-01-02''"
    using th by (rule conjunct1)
  have b1: "files (fst (store_lines example_crawler ''hk'' two_day_batch two_line_state))
        (file_path example_crawler ''hk'' ''2024-01-01'') =
      Some (old_content two_line_state (file_path example_crawler ''hk'' ''2024-01-01'') @
            concat (map (\<lambda>k. format_line (fst k) (snd k))
              (filter (newer (mark_of (old_content two_line_state
                   (file_path example_crawler ''hk'' ''2024-01-01''))))
                 (partition_of ''2024-01-01'' two_day_batch))))"
    using th by blast
  have b2: "files (fst (store_lines example_crawler ''hk'' two_day_batch two_line_state))
        (file_path example_crawler ''hk'' ''2024-01-02'') =
      Some (old_content two_line_state (file_path example_crawler ''hk'' ''2024-01-02'') @
            concat (map (\<lambda>k. format_line (fst k) (snd k))
              (filter (newer (mark_of (old_content two_line_state
                   (file_path example_crawler ''hk'' ''2024-01-02''))))
                 (partition_of ''2024-01-02'' two_day_batch))))"
    using th by blast
  have m: "mark_of (format_line ''2024-01-01T09:00:00.000000'' ''zero'' @
      format_line ''2024-01-01T10:00:00.000000'' ''first'') = Some (2024, 1, 1, 10, 0, 0, 0)"
    by (simp add: mark_of_def last_ex2)
  have c1: "files (fst (store_lines example_crawler ''hk'' two_day_batch two_line_state))
       ''wandb_logs/hk/2024-01-01.log'' =
     Some (format_line ''2024-01-01T09:00:00.000000'' ''zero'' @
           format_line ''2024-01-01T10:00:00.000000'' ''first'' @
           format_line ''2024-01-01T10:00:01.000000'' ''world'')"
    using b1 by (simp add: path_ex1 o1 m two_day_partitions newer_after strptime_examples)
  have c2: "files (fst (store_lines example_crawler ''hk'' two_day_batch two_line_state))
       ''wandb_logs/hk/2024-01-02.log'' =
     Some (format_line ''2024-01-02T08:00:00.000000'' ''next day'')"
    using b2 by (simp add: path_ex2 o2 mark_of_empty newer_None two_day_partitions)
  from a c1 c2 show ?thesis by (simp add: path_ex1 path_ex2)
qed

text \<open>
  C6 as stated fails when the file of a date already holds a line: the batch carries
  two lines of 2024-01-01, the file of that date ends with a line of 10:00:00, and the
  file receives only the second of the two, the first being at the high-water mark.
\<close>

theorem line_of_the_date_is_not_received:
  "partition_of ''2024-01-01'' two_day_batch =
     [(''2024-01-01T10:00:00.000000'', '' hello''), (''2024-01-01T10:00:01.000000'', ''world'')]
   \<and> files one_line_state ''wandb_logs/hk/2024-01-01.log'' =
       Some (format_line ''2024-01-01T10:00:00.000000'' ''first'')
   \<and> files (fst (store_lines example_crawler ''hk'' two_day_batch one_line_state))
       ''wandb_logs/hk/2024-01-01.log'' =
     Some (format_line ''2024-01-01T10:00:00.000000'' ''first'' @
           format_line ''2024-01-01T10:00:01.000000'' ''world'')
   \<and> snd (store_lines example_crawler ''hk'' two_day_batch one_line_state) = None"
proof -
  have o1: "old_content one_line_state ''wandb_logs/hk/2024-01-01.log'' =
      format_line ''2024-01-01T10:00:00.000000'' ''first''"
    by (simp add: old_content_def one_line_state_def)
  have o2: "old_content one_line_state ''wandb_logs/hk/2024-01-02.log'' = []"
    by (simp add: old_content_def one_line_state_def)
  have f: "files one_line_state ''wandb_logs/hk/2024-01-01.log'' =
       Some (format_line ''2024-01-01T10:00:00.000000'' ''first'')"
    by (simp add: one_line_state_def)
  have h1: "\<forall>l\<in>set two_day_batch. strptime (fst l) \<noteq> None"
    by (simp add: two_day_batch_def strptime_examples)
  have h2: "\<forall>l\<in>set two_day_batch.
      readable (old_content one_line_state (file_path example_crawler ''hk'' (date_of (fst l))))"
    by (simp add: two_day_batch_def date_examples path_ex1 path_ex2 o1 o2 readable_def
        last_ex1 last_empty)
  have h3: "(''2024-01-01T10:00:00.000000'', ''INFO | hello'') \<in> set two_day_batch"
    by (simp add: two_day_batch_def)
  have h4: "''2024-01-01'' = date_of (fst (''2024-01-01T10:00:00.000000'', ''INFO | hello''))"
    by (simp add: date_examples)
  have m: "mark_of (format_line ''2024-01-01T10:00:00.000000'' ''first'') =
      Some (2024, 1, 1, 10, 0, 0, 0)"
    by (simp add: mark_of_def last_ex1)
  have a: "files (fst (store_lines example_crawler ''hk'' two_day_batch one_line_state))
       ''wandb_logs/hk/2024-01-01.log'' =
     Some (format_line ''2024-01-01T10:00:00.000000'' ''first'' @
           format_line ''2024-01-01T10:00:01.000000'' ''world'')"
    using store_lines_file [OF h1 h2 h3 h4]
    by (simp add: path_ex1 o1 m kept_text_def two_day_partitions newer_after strptime_examples)
  have b: "snd (store_lines example_crawler ''hk'' two_day_batch one_line_state) = None"
    using store_lines_ok [OF h1 h2] by simp
  from a b f show ?thesis by (simp add: two_day_partitions)
qed

section \<open>The stored line and its path\<close>

lemma file_path_layout:
  assumes "store_path self \<noteq> []" and "last (store_path self) \<noteq> CHR ''/''"
    and "hotkey \<noteq> []" and "hd hotkey \<noteq> CHR ''/''" and "last hotkey \<noteq> CHR ''/''"
    and "\<not> startswith d ''/''"
  shows "file_path self hotkey d = store_path self @ ''/'' @ hotkey @ ''/'' @ d @ ''.log''"
proof -
  have "\<not> startswith hotkey ''/''"
    using assms(3,4) by (cases hotkey) (auto simp: startswith_def)
  then have f: "folder_path self hotkey = store_path self @ ''/'' @ hotkey"
    using assms(1,2) by (simp add: folder_path_def path_join_def)
  then have "folder_path self hotkey \<noteq> []" and "last (folder_path self hotkey) \<noteq> CHR ''/''"
    using assms(3,5) by simp_all
  then show ?thesis using file_path_plain [OF assms(6), of self hotkey] f by simp
qed

text \<open>
  C9, as the code has it. For a batch whose timestamps all parse, stored over files
  whose last lines parse, and every owner key: each line \<open>store_lines\<close> persists is the
  timestamp, a space, \<^verbatim>\<open>|\<close>, a space, the stored content and a line feed, and it goes
  to the file at \<^verbatim>\<open>os.path.join(os.path.join(store_path, hotkey), date + ".log")\<close>,
  the date being the part of the timestamp before its first \<open>T\<close>. That path is
  \<^verbatim>\<open><store_path>/<hotkey>/<date>.log\<close> when the store root is not empty and does not
  end with a slash and the owner key is not empty and neither starts nor ends with a
  slash.
\<close>

theorem persisted_line_layout:
  assumes "\<forall>l\<in>set lines. strptime (fst l) \<noteq> None"
    and "\<forall>l\<in>set lines. readable (old_content st (file_path self hotkey (date_of (fst l))))"
    and "l \<in> set lines" and "d = date_of (fst l)"
  shows "files (fst (store_lines self hotkey lines st))
           (path_join (path_join (store_path self) hotkey) (d @ ''.log'')) =
         Some (old_content st (path_join (path_join (store_path self) hotkey) (d @ ''.log'')) @
               concat (map (\<lambda>k. fst k @ '' | '' @ snd k @ [LF])
                  (filter (newer (mark_of
                       (old_content st (path_join (path_join (store_path self) hotkey) (d @ ''.log'')))))
                     (partition_of d lines))))
     \<and> (store_path self \<noteq> [] \<and> last (store_path self) \<noteq> CHR ''/'' \<and>
        hotkey \<noteq> [] \<and> hd hotkey \<noteq> CHR ''/'' \<and> last hotkey \<noteq> CHR ''/'' \<longrightarrow>
          path_join (path_join (store_path self) hotkey) (d @ ''.log'') =
            store_path self @ ''/'' @ hotkey @ ''/'' @ d @ ''.log'')"
proof -
  from assms(1,3) obtain t where "strptime (fst l) = Some t" by auto
  then have n: "\<not> startswith d ''/''" using assms(4) by (simp add: date_of_parsed)
  have p: "path_join (path_join (store_path self) hotkey) (d @ ''.log'') = file_path self hotkey d"
    by (simp add: file_path_def folder_path_def)
  have f: "(\<lambda>k. format_line (fst k) (snd k)) = (\<lambda>k. fst k @ '' | '' @ snd k @ [LF])"
    by (simp add: format_line_def fun_eq_iff)
  have a: "files (fst (store_lines self hotkey lines st)) (file_path self hotkey d) =
         Some (old_content st (file_path self hotkey d) @
               concat (map (\<lambda>k. fst k @ '' | '' @ snd k @ [LF])
                  (filter (newer (mark_of (old_content st (file_path self hotkey d))))
                     (partition_of d lines))))"
    using store_lines_file [OF assms(1,2,3,4)] by (simp add: kept_text_def f)
  have b: "file_path self hotkey d = store_path self @ ''/'' @ hotkey @ ''/'' @ d @ ''.log''"
    if "store_path self \<noteq> []" "last (store_path self) \<noteq> CHR ''/''"
       "hotkey \<noteq> []" "hd hotkey \<noteq> CHR ''/''" "last hotkey \<noteq> CHR ''/''"
    using file_path_layout [OF that n] .
  show ?thesis unfolding p using a b by blast
qed

theorem persisted_line_layout_witness:
  "files (fst (store_lines example_crawler ''hk'' dedup_batch two_line_state))
       ''wandb_logs/hk/2024-01-01.log'' =
     Some (''2024-01-01T09:00:00.000000 | zero'' @ [LF] @
           ''2024-01-01T10:00:00.000000 | first'' @ [LF] @
           ''2024-01-01T10:00:01.000000 |  late'' @ [LF])
   \<and> files (fst (store_lines example_crawler ''/srv'' one_line_batch empty_state))
       ''/srv/2024-01-01.log'' =
     Some (''2024-01-01T10:00:00.000000 | x'' @ [LF])"
proof -
  have o1: "old_content two_line_state ''wandb_logs/hk/2024-01-01.log'' =
      format_line ''2024-01-01T09:00:00.000000'' ''zero'' @
      format_line ''2024-01-01T10:00:00.000000'' ''first''"
    by (simp add: old_content_def two_line_state_def)
  have h1: "\<forall>l\<in>set dedup_batch. strptime (fst l) \<noteq> None"
    by (simp add: dedup_batch_def strptime_examples)
  have h2: "\<forall>l\<in>set dedup_batch.
      readable (old_content two_line_state (file_path example_crawler ''hk'' (date_of (fst l))))"
    by (simp add: dedup_batch_def date_examples path_ex1 o1 readable_def last_ex2)
  have h3: "(''2024-01-01T10:00:01.000000'', ''DEBUG | late'') \<in> set dedup_batch"
    by (simp add: dedup_batch_def)
  have h4: "''2024-01-01'' = date_of (fst (''2024-01-01T10:00:01.000000'', ''DEBUG | late''))"
    by (simp add: date_examples)
  have pd: "partition_of ''2024-01-01'' dedup_batch =
      [(''2024-01-01T09:59:59.000000'', ''early''),
       (''2024-01-01T10:00:01.000000'', '' late''),
       (''2024-01-01T10:00:00.000000'', ''same'')]"
    by (simp add: partition_of_def dedup_batch_def date_examples strip_level_def levels_def
        startswith_def)
  have m: "mark_of (format_line ''2024-01-01T09:00:00.000000'' ''zero'' @
      format_line ''2024-01-01T10:00:00.000000'' ''first'') = Some (2024, 1, 1, 10, 0, 0, 0)"
    by (simp add: mark_of_def last_ex2)
  note th = persisted_line_layout [OF h1 h2 h3 h4]
  have lay: "path_join (path_join (store_path example_crawler) ''hk'') (''2024-01-01'' @ ''.log'') =
      store_path example_crawler @ ''/'' @ ''hk'' @ ''/'' @ ''2024-01-01'' @ ''.log''"
  proof -
    have "store_path example_crawler \<noteq> [] \<and> last (store_path example_crawler) \<noteq> CHR ''/'' \<and>
        ''hk'' \<noteq> [] \<and> hd ''hk'' \<noteq> CHR ''/'' \<and> last ''hk'' \<noteq> CHR ''/''"
      by (simp add: example_crawler_def)
    with th show ?thesis by blast
  qed
  have w1: "files (fst (store_lines example_crawler ''hk'' dedup_batch two_line_state))
           (path_join (path_join (store_path example_crawler) ''hk'') (''2024-01-01'' @ ''.log'')) =
         Some (old_content two_line_state
                (path_join (path_join (store_path example_crawler) ''hk'') (''2024-01-01'' @ ''.log'')) @
               concat (map (\<lambda>k. fst k @ '' | '' @ snd k @ [LF])
                  (filter (newer (mark_of (old_content two_line_state
                       (path_join (path_join (store_path example_crawler) ''hk'') (''2024-01-01'' @ ''.log'')))))
                     (partition_of ''2024-01-01'' dedup_batch))))"
    using th by (rule conjunct1)
  have l1: "store_path example_crawler @ ''/'' @ ''hk'' @ ''/'' @ ''2024-01-01'' @ ''.log'' =
      ''wandb_logs/hk/2024-01-01.log''"
    by (simp add: example_crawler_def)
  have f: "format_line a b = a @ '' | '' @ b @ [LF]" for a b
    by (simp add: format_line_def)
  have c1: "files (fst (store_lines example_crawler ''hk'' dedup_batch two_line_state))
       ''wandb_logs/hk/2024-01-01.log'' =
     Some (''2024-01-01T09:00:00.000000 | zero'' @ [LF] @
           ''2024-01-01T10:00:00.000000 | first'' @ [LF] @
           ''2024-01-01T10:00:01.000000 |  late'' @ [LF])"
    using w1 unfolding lay l1 o1 m pd
    by (simp add: newer_after strptime_examples f)
  have g1: "\<forall>l\<in>set one_line_batch. strptime (fst l) \<noteq> None"
    by (simp add: one_line_batch_def strptime_examples)
  have g2: "\<forall>l\<in>set one_line_batch.
      readable (old_content empty_state (file_path example_crawler ''/srv'' (date_of (fst l))))"
    by (simp add: one_line_batch_def old_content_def empty_state_def readable_def last_empty)
  have g3: "(''2024-01-01T10:00:00.000000'', ''x'') \<in> set one_line_batch"
    by (simp add: one_line_batch_def)
  have g4: "''2024-01-01'' = date_of (fst (''2024-01-01T10:00:00.000000'', ''x''))"
    by (simp add: date_examples)
  have o: "old_content empty_state q = []" for q
    by (simp add: old_content_def empty_state_def)
  have p: "partition_of ''2024-01-01'' one_line_batch = [(''2024-01-01T10:00:00.000000'', ''x'')]"
    by (simp add: partition_of_def one_line_batch_def date_examples strip_level_def levels_def
        startswith_def)
  have j: "path_join (path_join (store_path example_crawler) ''/srv'') (''2024-01-01'' @ ''.log'') =
      ''/srv/2024-01-01.log''"
    by (simp add: path_join_def startswith_def example_crawler_def)
  have w2: "files (fst (store_lines example_crawler ''/srv'' one_line_batch empty_state))
           (path_join (path_join (store_path example_crawler) ''/srv'') (''2024-01-01'' @ ''.log'')) =
         Some (old_content empty_state
                (path_join (path_join (store_path example_crawler) ''/srv'') (''2024-01-01'' @ ''.log'')) @
               concat (map (\<lambda>k. fst k @ '' | '' @ snd k @ [LF])
                  (filter (newer (mark_of (old_content empty_state
                       (path_join (path_join (store_path example_crawler) ''/srv'') (''2024-01-01'' @ ''.log'')))))
                     (partition_of ''2024-01-01'' one_line_batch))))"
    using persisted_line_layout [OF g1 g2 g3 g4] by (rule conjunct1)
  have c2: "files (fst (store_lines example_crawler ''/srv'' one_line_batch empty_state))
       ''/srv/2024-01-01.log'' =
     Some (''2024-01-01T10:00:00.000000 | x'' @ [LF])"
    using w2 unfolding j o p by (simp add: mark_of_empty newer_None)
  from c1 c2 show ?thesis by blast
qed

text \<open>
  C9 as stated fails for an owner key that is an absolute path: \<^verbatim>\<open>os.path.join\<close>
  drops the store root, and the line goes to \<^verbatim>\<open>/srv/2024-01-01.log\<close>, while nothing is
  written below the store root.
\<close>

theorem absolute_owner_key_leaves_store_root:
  "files (fst (store_lines example_crawler ''/srv'' one_line_batch empty_state))
       ''/srv/2024-01-01.log'' =
     Some (format_line ''2024-01-01T10:00:00.000000'' ''x'')
   \<and> files (fst (store_lines example_crawler ''/srv'' one_line_batch empty_state))
       ''wandb_logs//srv/2024-01-01.log'' = None"
proof -
  have fp: "file_path example_crawler ''/srv'' ''2024-01-01'' = ''/srv/2024-01-01.log''"
    by (simp add: file_path_def folder_path_def path_join_def startswith_def example_crawler_def)
  have h1: "\<forall>l\<in>set one_line_batch. strptime (fst l) \<noteq> None"
    by (simp add: one_line_batch_def strptime_examples)
  have h2: "\<forall>l\<in>set one_line_batch.
      readable (old_content empty_state (file_path example_crawler ''/srv'' (date_of (fst l))))"
    by (simp add: one_line_batch_def old_content_def empty_state_def readable_def last_empty)
  have h3: "(''2024-01-01T10:00:00.000000'', ''x'') \<in> set one_line_batch"
    by (simp add: one_line_batch_def)
  have h4: "''2024-01-01'' = date_of (fst (''2024-01-01T10:00:00.000000'', ''x''))"
    by (simp add: date_examples)
  have o: "old_content empty_state q = []" for q
    by (simp add: old_content_def empty_state_def)
  have p: "partition_of ''2024-01-01'' one_line_batch = [(''2024-01-01T10:00:00.000000'', ''x'')]"
    by (simp add: partition_of_def one_line_batch_def date_examples strip_level_def levels_def
        startswith_def)
  have a: "files (fst (store_lines example_crawler ''/srv'' one_line_batch empty_state))
       ''/srv/2024-01-01.log'' = Some (format_line ''2024-01-01T10:00:00.000000'' ''x'')"
    using store_lines_file [OF h1 h2 h3 h4]
    by (simp add: fp o mark_of_empty kept_text_None p)
  have "\<forall>l\<in>set one_line_batch. ''wandb_logs//srv/2024-01-01.log'' \<noteq>
      file_path example_crawler ''/srv'' (date_of (fst l))"
    by (simp add: one_line_batch_def date_examples fp)
  from store_lines_other [OF h1 h2 this]
  have b: "files (fst (store_lines example_crawler ''/srv'' one_line_batch empty_state))
       ''wandb_logs//srv/2024-01-01.log'' = None"
    by (simp add: empty_state_def)
  from a b show ?thesis by simp
qed

section \<open>Append-only files\<close>

lemma files_ensure_preserved:
  "files st p = Some c \<Longrightarrow> files (fst (ensure_file_exist self hotkey date st)) p = Some c"
  by (auto simp: files_ensure_general)

lemma ensure_file_exist_idem:
  "ensure_file_exist self hotkey date (fst (ensure_file_exist self hotkey date st)) =
     ensure_file_exist self hotkey date st"
proof -
  have d: "folder_dirs self hotkey (folder_dirs self hotkey (dirs st)) =
      folder_dirs self hotkey (dirs st)"
    by (rule folder_dirs_idem)
  show ?thesis
    unfolding ensure_file_exist_eq [of self hotkey date st]
    by (simp add: ensure_file_exist_eq d)
qed

lemma ensure_error:
  "snd (ensure_file_exist self hotkey date st) \<noteq> None \<Longrightarrow>
   snd (ensure_file_exist self hotkey date st) = Some FileNotFoundError
   \<and> files (fst (ensure_file_exist self hotkey date st)) = files st"
  by (auto simp: ensure_file_exist_eq split: if_splits)

lemma store_date_extends:
  assumes "files st p = Some c"
  shows "\<exists>suffix. files (fst (store_date self hotkey st item)) p = Some (c @ suffix)"
proof -
  let ?fp = "file_path self hotkey (fst item)"
  obtain st1 x where en: "ensure_file_exist self hotkey (fst item) st = (st1, x)"
    by (cases "ensure_file_exist self hotkey (fst item) st")
  have 1: "files st1 p = Some c"
    using files_ensure_preserved [OF assms, of self hotkey "fst item"] en by simp
  show ?thesis
  proof (cases x)
    case (Some e)
    then show ?thesis using 1 en by (simp add: store_date_def Let_def)
  next
    case None
    show ?thesis
    proof (cases "get_last_store_line_datetime self (fst item) hotkey st1")
      case (Inl e)
      then show ?thesis using 1 en None by (simp add: store_date_def Let_def)
    next
      case (Inr m)
      let ?r = "write_lines m (snd item) [] 0"
      have a: "\<exists>suffix. files (append_file ?fp (fst ?r) st1) p = Some (c @ suffix)"
        using 1 by (cases "p = ?fp") (auto simp: append_file_def)
      show ?thesis
        using Inr a en None by (cases "snd (snd ?r)") (auto simp: store_date_def Let_def)
    qed
  qed
qed

lemma store_dates_extends:
  "files st p = Some c \<Longrightarrow>
   \<exists>suffix. files (fst (store_dates self hotkey items st)) p = Some (c @ suffix)"
proof (induction items arbitrary: st c)
  case Nil
  then show ?case by simp
next
  case (Cons it items)
  from store_date_extends [OF Cons.prems, of self hotkey it] obtain s1
    where s1: "files (fst (store_date self hotkey st it)) p = Some (c @ s1)" by blast
  obtain st' e where r: "store_date self hotkey st it = (st', e)" by (cases "store_date self hotkey st it")
  show ?case
  proof (cases e)
    case None
    from s1 r have "files st' p = Some (c @ s1)" by simp
    from Cons.IH [OF this] obtain s2
      where "files (fst (store_dates self hotkey items st')) p = Some ((c @ s1) @ s2)" by blast
    then show ?thesis using r None by auto
  next
    case (Some x)
    then show ?thesis using s1 r by auto
  qed
qed

lemma store_lines_extends:
  "files st p = Some c \<Longrightarrow>
   \<exists>suffix. files (fst (store_lines self hotkey lines st)) p = Some (c @ suffix)"
  unfolding store_lines_def by (rule store_dates_extends)

lemma ensure_ex_kept:
  "ensure_file_exist example_crawler ''hk'' ''2024-01-01'' one_line_state = (one_line_state, None)"
  by (simp add: ensure_file_exist_eq path_ex1 folder_dirs_def folder_ex1 one_line_state_def
      is_dir_hk)

lemma folder_ex2: "folder_path example_crawler ''a/b'' = ''wandb_logs/a/b''"
  by (simp add: folder_path_def path_join_def startswith_def example_crawler_def)

lemma chain_ex: "dir_chain ''wandb_logs/a/b'' = [''wandb_logs'', ''wandb_logs/a'', ''wandb_logs/a/b'']"
  by (simp add: dir_chain_def strip_slash_def Let_def)

lemma ensure_ex_nested:
  "dirs (fst (ensure_file_exist example_crawler ''a/b'' ''2024-01-01'' empty_state)) =
     {''wandb_logs'', ''wandb_logs/a'', ''wandb_logs/a/b''}
   \<and> files (fst (ensure_file_exist example_crawler ''a/b'' ''2024-01-01'' empty_state))
       ''wandb_logs/a/b/2024-01-01.log'' = Some []
   \<and> snd (ensure_file_exist example_crawler ''a/b'' ''2024-01-01'' empty_state) = None"
proof -
  have p: "file_path example_crawler ''a/b'' ''2024-01-01'' = ''wandb_logs/a/b/2024-01-01.log''"
    by (simp add: file_path_def folder_path_def path_join_def startswith_def example_crawler_def)
  have n: "\<not> is_dir {''wandb_logs''} ''wandb_logs/a/b''"
    by (simp add: is_dir_def strip_slash_def)
  have d: "folder_dirs example_crawler ''a/b'' {''wandb_logs''} =
      {''wandb_logs'', ''wandb_logs/a'', ''wandb_logs/a/b''}"
    by (auto simp: folder_dirs_def folder_ex2 n chain_ex)
  have s: "snd (ensure_file_exist example_crawler ''a/b'' ''2024-01-01'' empty_state) = None"
    by (rule ensure_no_slash) simp
  have f: "files (fst (ensure_file_exist example_crawler ''a/b'' ''2024-01-01'' empty_state))
       ''wandb_logs/a/b/2024-01-01.log'' = Some []"
  proof -
    have "files empty_state q = None" for q by (simp add: empty_state_def)
    then show ?thesis by (simp add: files_ensure_general s p)
  qed
  have "dirs empty_state = {''wandb_logs''}" by (simp add: empty_state_def)
  then have "dirs (fst (ensure_file_exist example_crawler ''a/b'' ''2024-01-01'' empty_state)) =
     {''wandb_logs'', ''wandb_logs/a'', ''wandb_logs/a/b''}"
    by (simp add: dirs_ensure_file_exist d)
  with s f show ?thesis by simp
qed

lemma ensure_ex_slash:
  "ensure_file_exist example_crawler ''hk'' ''2024/01/01'' empty_state =
     (empty_state\<lparr>dirs := {''wandb_logs'', ''wandb_logs/hk''}\<rparr>, Some FileNotFoundError)"
proof -
  have p: "file_path example_crawler ''hk'' ''2024/01/01'' = ''wandb_logs/hk/2024/01/01.log''"
    by (simp add: file_path_def folder_path_def path_join_def startswith_def example_crawler_def)
  have n: "\<not> is_dir {''wandb_logs''} ''wandb_logs/hk''"
    by (simp add: is_dir_def strip_slash_def)
  have c: "dir_chain ''wandb_logs/hk'' = [''wandb_logs'', ''wandb_logs/hk'']"
    by (simp add: dir_chain_def strip_slash_def Let_def)
  have d: "folder_dirs example_crawler ''hk'' {''wandb_logs''} = {''wandb_logs'', ''wandb_logs/hk''}"
    by (auto simp: folder_dirs_def folder_ex1 n c)
  have dn: "dirname ''wandb_logs/hk/2024/01/01.log'' = ''wandb_logs/hk/2024/01''"
    by (simp add: dirname_def strip_slash_def)
  have m: "\<not> is_dir {''wandb_logs'', ''wandb_logs/hk''} ''wandb_logs/hk/2024/01''"
    by (simp add: is_dir_def strip_slash_def)
  show ?thesis
    by (simp add: ensure_file_exist_eq p empty_state_def d dn m)
qed

text \<open>
  C8. \<open>ensure_file_exist\<close> and \<open>store_lines\<close> never change or remove what a file of the
  store holds. \<open>ensure_file_exist\<close> keeps the content of every existing file. It changes
  no file when the target file exists or when it raises, which it does only with
  FileNotFoundError and never for a date without a slash; when the target file is
  absent and it returns, the target file is there and empty. It makes the folder, with
  the directories above it, only when the folder is absent, and removes no directory.
  A second call does what the first did and leaves the state the first left. After
  \<open>store_lines\<close>, whether it returns or raises, every file that existed holds its old
  content followed by what was appended.
\<close>

theorem store_is_append_only:
  "(files st p = Some c \<longrightarrow>
      files (fst (ensure_file_exist self hotkey date st)) p = Some c)
   \<and> (files st (file_path self hotkey date) \<noteq> None \<longrightarrow>
        files (fst (ensure_file_exist self hotkey date st)) = files st
        \<and> snd (ensure_file_exist self hotkey date st) = None)
   \<and> (files st (file_path self hotkey date) = None \<and>
      snd (ensure_file_exist self hotkey date st) = None \<longrightarrow>
        files (fst (ensure_file_exist self hotkey date st)) (file_path self hotkey date) = Some [])
   \<and> (snd (ensure_file_exist self hotkey date st) \<noteq> None \<longrightarrow>
        snd (ensure_file_exist self hotkey date st) = Some FileNotFoundError
        \<and> files (fst (ensure_file_exist self hotkey date st)) = files st)
   \<and> (CHR ''/'' \<notin> set date \<longrightarrow> snd (ensure_file_exist self hotkey date st) = None)
   \<and> (is_dir (dirs st) (folder_path self hotkey) \<longrightarrow>
        dirs (fst (ensure_file_exist self hotkey date st)) = dirs st)
   \<and> (\<not> is_dir (dirs st) (folder_path self hotkey) \<longrightarrow>
        dirs (fst (ensure_file_exist self hotkey date st)) =
          dirs st \<union> set (dir_chain (folder_path self hotkey)))
   \<and> ensure_file_exist self hotkey date (fst (ensure_file_exist self hotkey date st)) =
       ensure_file_exist self hotkey date st
   \<and> (files st p = Some c \<longrightarrow>
        (\<exists>suffix. files (fst (store_lines self hotkey lines st)) p = Some (c @ suffix)))"
proof -
  have 1: "files st p = Some c \<longrightarrow>
      files (fst (ensure_file_exist self hotkey date st)) p = Some c"
    by (simp add: files_ensure_preserved)
  have 2: "files st (file_path self hotkey date) \<noteq> None \<longrightarrow>
        files (fst (ensure_file_exist self hotkey date st)) = files st
        \<and> snd (ensure_file_exist self hotkey date st) = None"
    by (auto simp: ensure_file_exist_eq)
  have 3: "files st (file_path self hotkey date) = None \<and>
      snd (ensure_file_exist self hotkey date st) = None \<longrightarrow>
        files (fst (ensure_file_exist self hotkey date st)) (file_path self hotkey date) = Some []"
    by (simp add: files_ensure_general)
  have 4: "snd (ensure_file_exist self hotkey date st) \<noteq> None \<longrightarrow>
        snd (ensure_file_exist self hotkey date st) = Some FileNotFoundError
        \<and> files (fst (ensure_file_exist self hotkey date st)) = files st"
    using ensure_error [of self hotkey date st] by blast
  have 5: "CHR ''/'' \<notin> set date \<longrightarrow> snd (ensure_file_exist self hotkey date st) = None"
    by (simp add: ensure_no_slash)
  have 6: "is_dir (dirs st) (folder_path self hotkey) \<longrightarrow>
        dirs (fst (ensure_file_exist self hotkey date st)) = dirs st"
    by (simp add: dirs_ensure_file_exist folder_dirs_def)
  have 7: "\<not> is_dir (dirs st) (folder_path self hotkey) \<longrightarrow>
        dirs (fst (ensure_file_exist self hotkey date st)) =
          dirs st \<union> set (dir_chain (folder_path self hotkey))"
    by (simp add: dirs_ensure_file_exist folder_dirs_def)
  have 8: "ensure_file_exist self hotkey date (fst (ensure_file_exist self hotkey date st)) =
       ensure_file_exist self hotkey date st"
    by (rule ensure_file_exist_idem)
  have 9: "files st p = Some c \<longrightarrow>
      (\<exists>suffix. files (fst (store_lines self hotkey lines st)) p = Some (c @ suffix))"
    by (blast intro: store_lines_extends)
  from 1 2 3 4 5 6 7 8 9 show ?thesis by blast
qed

theorem store_is_append_only_witness:
  "files (fst (ensure_file_exist example_crawler ''hk'' ''2024-01-01'' one_line_state))
       ''wandb_logs/hk/2024-01-01.log'' =
     Some (format_line ''2024-01-01T10:00:00.000000'' ''first'')
   \<and> (\<exists>suffix. files (fst (store_lines example_crawler ''hk'' dedup_batch one_line_state))
         ''wandb_logs/hk/2024-01-01.log'' =
       Some (format_line ''2024-01-01T10:00:00.000000'' ''first'' @ suffix))
   \<and> files (fst (ensure_file_exist example_crawler ''a/b'' ''2024-01-01'' empty_state))
       ''wandb_logs/a/b/2024-01-01.log'' = Some []
   \<and> dirs (fst (ensure_file_exist example_crawler ''a/b'' ''2024-01-01'' empty_state)) =
       {''wandb_logs'', ''wandb_logs/a'', ''wandb_logs/a/b''}
   \<and> snd (ensure_file_exist example_crawler ''hk'' ''2024/01/01'' empty_state) =
       Some FileNotFoundError
   \<and> files (fst (ensure_file_exist example_crawler ''hk'' ''2024/01/01'' empty_state)) = Map.empty"
proof -
  have f: "files one_line_state ''wandb_logs/hk/2024-01-01.log'' =
      Some (format_line ''2024-01-01T10:00:00.000000'' ''first'')"
    by (simp add: one_line_state_def)
  note t1 = store_is_append_only [of one_line_state "''wandb_logs/hk/2024-01-01.log''"
      "format_line ''2024-01-01T10:00:00.000000'' ''first''" example_crawler "''hk''"
      "''2024-01-01''" dedup_batch]
  have a: "files (fst (ensure_file_exist example_crawler ''hk'' ''2024-01-01'' one_line_state))
       ''wandb_logs/hk/2024-01-01.log'' =
     Some (format_line ''2024-01-01T10:00:00.000000'' ''first'')"
    using t1 f by blast
  have b: "\<exists>suffix. files (fst (store_lines example_crawler ''hk'' dedup_batch one_line_state))
         ''wandb_logs/hk/2024-01-01.log'' =
       Some (format_line ''2024-01-01T10:00:00.000000'' ''first'' @ suffix)"
    using t1 f by blast
  note t2 = store_is_append_only [of empty_state "''x''" "''y''" example_crawler "''a/b''"
      "''2024-01-01''" dedup_batch]
  have p2: "file_path example_crawler ''a/b'' ''2024-01-01'' = ''wandb_logs/a/b/2024-01-01.log''"
    by (simp add: file_path_def folder_path_def path_join_def startswith_def example_crawler_def)
  have n2: "files empty_state (file_path example_crawler ''a/b'' ''2024-01-01'') = None"
    by (simp add: empty_state_def)
  have s2: "snd (ensure_file_exist example_crawler ''a/b'' ''2024-01-01'' empty_state) = None"
    using ensure_ex_nested by blast
  have "files (fst (ensure_file_exist example_crawler ''a/b'' ''2024-01-01'' empty_state))
       (file_path example_crawler ''a/b'' ''2024-01-01'') = Some []"
    using t2 n2 s2 by blast
  then have c: "files (fst (ensure_file_exist example_crawler ''a/b'' ''2024-01-01'' empty_state))
       ''wandb_logs/a/b/2024-01-01.log'' = Some []"
    by (simp add: p2)
  have nd: "\<not> is_dir (dirs empty_state) (folder_path example_crawler ''a/b'')"
    by (simp add: empty_state_def folder_ex2 is_dir_def strip_slash_def)
  have "dirs (fst (ensure_file_exist example_crawler ''a/b'' ''2024-01-01'' empty_state)) =
      dirs empty_state \<union> set (dir_chain (folder_path example_crawler ''a/b''))"
    using t2 nd by blast
  moreover have "dirs empty_state \<union> set (dir_chain (folder_path example_crawler ''a/b'')) =
      {''wandb_logs'', ''wandb_logs/a'', ''wandb_logs/a/b''}"
    by (auto simp: folder_ex2 chain_ex empty_state_def)
  ultimately have d: "dirs (fst (ensure_file_exist example_crawler ''a/b'' ''2024-01-01'' empty_state)) =
       {''wandb_logs'', ''wandb_logs/a'', ''wandb_logs/a/b''}"
    by simp
  note t3 = store_is_append_only [of empty_state "''x''" "''y''" example_crawler "''hk''"
      "''2024/01/01''" dedup_batch]
  have s3: "snd (ensure_file_exist example_crawler ''hk'' ''2024/01/01'' empty_state) \<noteq> None"
    by (simp add: ensure_ex_slash)
  have e: "snd (ensure_file_exist example_crawler ''hk'' ''2024/01/01'' empty_state) =
      Some FileNotFoundError"
    using t3 s3 by blast
  have "files (fst (ensure_file_exist example_crawler ''hk'' ''2024/01/01'' empty_state)) =
      files empty_state"
    using t3 s3 by blast
  then have g: "files (fst (ensure_file_exist example_crawler ''hk'' ''2024/01/01'' empty_state)) =
      Map.empty"
    by (simp add: empty_state_def)
  from a b c d e g show ?thesis by blast
qed

end
